theory Spec2Isabelle
  imports Main "HOL-Library.Word"
begin

section \<open>Python values\<close>

text \<open>
  The services read two kinds of dynamically typed data: the value that
  \<^verbatim>\<open>ast.literal_eval\<close> makes of the stored maintenance flag, and the body that
  \<^verbatim>\<open>response.json()\<close> makes of a provider response. Both are Python literals:
  None, booleans, integers, strings, lists, tuples and dictionaries (an association
  list in insertion order). Floating point numbers, bytes and sets are left out.
\<close>

datatype pyval =
    PyNone
  | PyBool bool
  | PyInt int
  | PyStr string
  | PyList "pyval list"
  | PyTuple "pyval list"
  | PyDict "(pyval \<times> pyval) list"

text \<open>The exceptions that the operations below raise; \<open>OtherError\<close> carries the text of any other one.\<close>

datatype pyexc =
    AttributeError
  | KeyError
  | IndexError
  | TypeError
  | SyntaxError
  | OtherError string

text \<open>Truthiness, as \<^verbatim>\<open>if x:\<close> and \<^verbatim>\<open>not x\<close> test it.\<close>

fun py_truthy :: "pyval \<Rightarrow> bool" where
  "py_truthy PyNone = False"
| "py_truthy (PyBool b) = b"
| "py_truthy (PyInt n) = (n \<noteq> 0)"
| "py_truthy (PyStr s) = (s \<noteq> [])"
| "py_truthy (PyList xs) = (xs \<noteq> [])"
| "py_truthy (PyTuple xs) = (xs \<noteq> [])"
| "py_truthy (PyDict kvs) = (kvs \<noteq> [])"

text \<open>\<^verbatim>\<open>obj.get(key, default)\<close>: only a dictionary has the method.\<close>

fun py_get :: "pyval \<Rightarrow> string \<Rightarrow> pyval \<Rightarrow> pyexc + pyval" where
  "py_get (PyDict kvs) k d = (case map_of kvs (PyStr k) of None \<Rightarrow> Inr d | Some v \<Rightarrow> Inr v)"
| "py_get _ k d = Inl AttributeError"

text \<open>\<^verbatim>\<open>obj[0]\<close>.\<close>

fun py_first :: "pyval \<Rightarrow> pyexc + pyval" where
  "py_first (PyList []) = Inl IndexError"
| "py_first (PyList (x # xs)) = Inr x"
| "py_first (PyTuple []) = Inl IndexError"
| "py_first (PyTuple (x # xs)) = Inr x"
| "py_first (PyStr []) = Inl IndexError"
| "py_first (PyStr (c # cs)) = Inr (PyStr [c])"
| "py_first (PyDict kvs) = (case map_of kvs (PyInt 0) of None \<Rightarrow> Inl KeyError | Some v \<Rightarrow> Inr v)"
| "py_first _ = Inl TypeError"

text \<open>\<^verbatim>\<open>len(obj)\<close>.\<close>

fun py_len :: "pyval \<Rightarrow> pyexc + nat" where
  "py_len (PyStr s) = Inr (length s)"
| "py_len (PyList xs) = Inr (length xs)"
| "py_len (PyTuple xs) = Inr (length xs)"
| "py_len (PyDict kvs) = Inr (length kvs)"
| "py_len _ = Inl TypeError"

text \<open>\<^verbatim>\<open>obj == 0\<close>: an integer zero, and \<^verbatim>\<open>False\<close>, which equals 0 in Python.\<close>

fun py_is_zero :: "pyval \<Rightarrow> bool" where
  "py_is_zero (PyInt n) = (n = 0)"
| "py_is_zero (PyBool b) = (\<not> b)"
| "py_is_zero _ = False"

text \<open>\<^verbatim>\<open>obj[key] = value\<close> with a string key: only a dictionary supports it among the values
  here that a string can index. An existing key keeps its place, a new one goes last.\<close>

fun dict_set :: "(pyval \<times> pyval) list \<Rightarrow> pyval \<Rightarrow> pyval \<Rightarrow> (pyval \<times> pyval) list" where
  "dict_set [] k v = [(k, v)]"
| "dict_set ((k', v') # kvs) k v = (if k' = k then (k, v) # kvs else (k', v') # dict_set kvs k v)"

fun py_setitem :: "pyval \<Rightarrow> string \<Rightarrow> pyval \<Rightarrow> pyexc + pyval" where
  "py_setitem (PyDict kvs) k v = Inr (PyDict (dict_set kvs (PyStr k) v))"
| "py_setitem _ k v = Inl TypeError"

text \<open>An \<^verbatim>\<open>Optional[str]\<close> argument as the Python value it is.\<close>

fun py_opt :: "string option \<Rightarrow> pyval" where
  "py_opt None = PyNone"
| "py_opt (Some s) = PyStr s"

section \<open>The backing store\<close>

text \<open>
  A row of table \<^verbatim>\<open>api_keys\<close>. The status is the text stored in the column
  (\<^verbatim>\<open>active\<close>, \<^verbatim>\<open>degraded\<close>, \<^verbatim>\<open>disabled\<close>, or anything else).
\<close>

record api_key =
  key_id :: string
  provider :: string
  feature :: string
  key_value :: string
  priority :: int
  status :: string
  failure_count :: int

text \<open>
  Column \<^verbatim>\<open>flag_value\<close> of table \<^verbatim>\<open>system_flags\<close> is text. The service writes it with
  \<^verbatim>\<open>str(dict)\<close> and reads it with \<^verbatim>\<open>ast.literal_eval\<close>, so a stored text is kept
  here as what \<^verbatim>\<open>ast.literal_eval\<close> makes of it: \<open>Unparseable\<close> when it raises
  (as on the text \<^verbatim>\<open>off\<close> that script \<^verbatim>\<open>exit_maintenance.py\<close> writes, or on a null),
  \<open>Literal v\<close> when it evaluates to \<open>v\<close>. Writing \<^verbatim>\<open>str(v)\<close> stores \<open>Literal v\<close>:
  for the literals of type \<open>pyval\<close>, \<^verbatim>\<open>ast.literal_eval(str(v)) == v\<close>.
\<close>

datatype flag_text = Unparseable string | Literal pyval

fun literal_eval :: "flag_text \<Rightarrow> pyexc + pyval" where
  "literal_eval (Unparseable s) = Inl SyntaxError"
| "literal_eval (Literal v) = Inr v"

definition py_str :: "pyval \<Rightarrow> flag_text" where
  "py_str v = Literal v"

record flag_row =
  flag_name :: string
  flag_value :: flag_text
  updated_at :: string
  updated_by :: "string option"

text \<open>The calls that reached the notification service, oldest first.\<close>

datatype notification =
    MaintenanceTriggered string string "string option"
  | AdminOverride string string pyval pyval

record store =
  api_keys :: "api_key list"
  system_flags :: "flag_row list"
  notifications :: "notification list"

text \<open>\<^verbatim>\<open>table("system_flags").select(...).eq("flag_name", name).execute().data\<close>\<close>

definition select_flags :: "store \<Rightarrow> string \<Rightarrow> flag_row list" where
  "select_flags st name = filter (\<lambda>r. flag_name r = name) (system_flags st)"

text \<open>\<^verbatim>\<open>table("system_flags").update({...}).eq("flag_name", name).execute()\<close>\<close>

definition update_flags :: "store \<Rightarrow> string \<Rightarrow> flag_text \<Rightarrow> string \<Rightarrow> string option \<Rightarrow> store" where
  "update_flags st name v at by =
     st\<lparr>system_flags :=
          map (\<lambda>r. if flag_name r = name
                    then r\<lparr>flag_value := v, updated_at := at, updated_by := by\<rparr>
                    else r)
              (system_flags st)\<rparr>"

text \<open>\<^verbatim>\<open>table("system_flags").insert({...}).execute()\<close>\<close>

definition insert_flag :: "store \<Rightarrow> string \<Rightarrow> flag_text \<Rightarrow> string \<Rightarrow> string option \<Rightarrow> store" where
  "insert_flag st name v at by =
     st\<lparr>system_flags :=
          system_flags st @ [\<lparr>flag_name = name, flag_value = v, updated_at = at, updated_by = by\<rparr>]\<rparr>"

definition notify :: "store \<Rightarrow> notification \<Rightarrow> store" where
  "notify st n = st\<lparr>notifications := notifications st @ [n]\<rparr>"

section \<open>Maintenance service\<close>

subsection \<open>\<^verbatim>\<open>evaluate_maintenance_trigger\<close>\<close>

text \<open>\<^verbatim>\<open>sum(1 for k in keys if k["status"] == s)\<close>\<close>

definition count_status :: "api_key list \<Rightarrow> string \<Rightarrow> nat" where
  "count_status keys s = length (filter (\<lambda>k. status k = s) keys)"

definition evaluate_maintenance_trigger :: "store \<Rightarrow> string \<Rightarrow> int \<Rightarrow> string option" where
  "evaluate_maintenance_trigger st feat failures =
     (let keys = filter (\<lambda>k. feature k = feat) (api_keys st) in
      if keys = [] then Some ''soft''
      else
        let active_keys = count_status keys ''active'';
            degraded_keys = count_status keys ''degraded''
        in if active_keys = 0 \<and> degraded_keys = 0 then Some ''hard''
           else if active_keys = 0 \<and> degraded_keys > 0 then Some ''soft''
           else if failures \<ge> 5 then Some ''soft''
           else None)"

subsection \<open>\<^verbatim>\<open>get_maintenance_status\<close>\<close>

record maintenance_status =
  in_maintenance :: bool
  level :: pyval
  reason :: pyval
  feature_of :: pyval
  triggered_by :: pyval
  triggered_at :: pyval

definition not_in_maintenance :: maintenance_status where
  "not_in_maintenance =
     \<lparr>in_maintenance = False, level = PyNone, reason = PyNone, feature_of = PyNone,
      triggered_by = PyNone, triggered_at = PyNone\<rparr>"

text \<open>\<^verbatim>\<open>d.get(k)\<close> on a value known to be a dictionary: the default is \<^verbatim>\<open>None\<close>.\<close>

definition dict_get :: "(pyval \<times> pyval) list \<Rightarrow> string \<Rightarrow> pyval" where
  "dict_get kvs k = (case map_of kvs (PyStr k) of None \<Rightarrow> PyNone | Some v \<Rightarrow> v)"

text \<open>The body of the \<^verbatim>\<open>try\<close> block: \<open>Inl\<close> is an exception raised inside it.\<close>

definition parse_flag :: "flag_text \<Rightarrow> pyexc + maintenance_status" where
  "parse_flag txt =
     (case literal_eval txt of
        Inl e \<Rightarrow> Inl e
      | Inr flag \<Rightarrow>
          (case py_get flag ''is_active'' (PyBool False) of
             Inl e \<Rightarrow> Inl e
           | Inr is_active \<Rightarrow>
               if \<not> py_truthy is_active then Inr not_in_maintenance
               else
                 (case flag of
                    PyDict kvs \<Rightarrow>
                      Inr \<lparr>in_maintenance = True,
                           level = dict_get kvs ''level'',
                           reason = dict_get kvs ''reason'',
                           feature_of = dict_get kvs ''feature'',
                           triggered_by = dict_get kvs ''triggered_by'',
                           triggered_at = dict_get kvs ''triggered_at''\<rparr>
                  | _ \<Rightarrow> Inl AttributeError)))"

definition get_maintenance_status :: "store \<Rightarrow> maintenance_status" where
  "get_maintenance_status st =
     (case select_flags st ''maintenance_mode'' of
        [] \<Rightarrow> not_in_maintenance
      | r # _ \<Rightarrow>
          (case parse_flag (flag_value r) of
             Inl e \<Rightarrow> not_in_maintenance
           | Inr s \<Rightarrow> s))"

subsection \<open>\<^verbatim>\<open>enter_maintenance\<close>\<close>

text \<open>
  The errors that the maintenance service lets escape: the \<^verbatim>\<open>ValueError\<close> on a level
  that is neither soft nor hard (it carries the level), and any exception of a statement
  outside a \<^verbatim>\<open>try\<close> block.
\<close>

datatype maintenance_error = InvalidMaintenanceLevel string | Raised pyexc

text \<open>
  The two readings of \<^verbatim>\<open>datetime.now().isoformat()\<close> are arguments: \<open>t_trig\<close> for
  \<^verbatim>\<open>triggered_at\<close>, \<open>t_upd\<close> for column \<^verbatim>\<open>updated_at\<close>. The call of
  \<^verbatim>\<open>notify_maintenance_triggered\<close> is recorded in the store; an exception of the
  notification service is swallowed by the source and changes nothing else.
\<close>

definition maintenance_data ::
  "string \<Rightarrow> string \<Rightarrow> string option \<Rightarrow> string option \<Rightarrow> string \<Rightarrow> pyval" where
  "maintenance_data lvl rsn feat by t_trig =
     PyDict [(PyStr ''level'', PyStr lvl),
             (PyStr ''reason'', PyStr rsn),
             (PyStr ''feature'', py_opt feat),
             (PyStr ''triggered_by'', py_opt by),
             (PyStr ''triggered_at'', PyStr t_trig),
             (PyStr ''is_active'', PyBool True)]"

definition enter_maintenance ::
  "string \<Rightarrow> string \<Rightarrow> string option \<Rightarrow> string option \<Rightarrow> string \<Rightarrow> string \<Rightarrow> store
     \<Rightarrow> maintenance_error + (maintenance_status \<times> store)" where
  "enter_maintenance lvl rsn feat by t_trig t_upd st =
     (if lvl \<notin> set [''soft'', ''hard''] then Inl (InvalidMaintenanceLevel lvl)
      else
        let current_status = get_maintenance_status st in
        if in_maintenance current_status
           \<and> \<not> (level current_status = PyStr ''soft'' \<and> lvl = ''hard'')
        then Inr (current_status, st)
        else
          let flag = py_str (maintenance_data lvl rsn feat by t_trig);
              st1 = (if select_flags st ''maintenance_mode'' \<noteq> []
                     then update_flags st ''maintenance_mode'' flag t_upd by
                     else insert_flag st ''maintenance_mode'' flag t_upd by);
              st2 = notify st1 (MaintenanceTriggered lvl rsn feat)
          in Inr (\<lparr>in_maintenance = True, level = PyStr lvl, reason = PyStr rsn,
                   feature_of = py_opt feat, triggered_by = py_opt by,
                   triggered_at = PyStr t_trig\<rparr>, st2))"

subsection \<open>\<^verbatim>\<open>exit_maintenance\<close>\<close>

text \<open>Sequencing of statements that may raise.\<close>

definition and_then :: "'e + 'a \<Rightarrow> ('a \<Rightarrow> 'e + 'b) \<Rightarrow> 'e + 'b" where
  "and_then m f = (case m of Inl e \<Rightarrow> Inl e | Inr x \<Rightarrow> f x)"

text \<open>
  The three assignments on the parsed flag value, which are outside any \<^verbatim>\<open>try\<close>:
  \<^verbatim>\<open>ast.literal_eval\<close> and each item assignment may raise.
\<close>

definition deactivate :: "flag_text \<Rightarrow> string \<Rightarrow> string option \<Rightarrow> pyexc + pyval" where
  "deactivate txt t_exit exited_by =
     and_then (literal_eval txt) (\<lambda>flag.
     and_then (py_setitem flag ''is_active'' (PyBool False)) (\<lambda>flag.
     and_then (py_setitem flag ''exited_at'' (PyStr t_exit)) (\<lambda>flag.
     py_setitem flag ''exited_by'' (py_opt exited_by))))"

text \<open>\<^verbatim>\<open>if exited_by:\<close> on an \<^verbatim>\<open>Optional[str]\<close>: neither \<^verbatim>\<open>None\<close> nor the empty string.\<close>

definition truthy_opt :: "string option \<Rightarrow> bool" where
  "truthy_opt x = py_truthy (py_opt x)"

text \<open>
  The readings of the clock are \<open>t_exit\<close> (stored as \<^verbatim>\<open>exited_at\<close>), \<open>t_upd\<close>
  (column \<^verbatim>\<open>updated_at\<close>) and \<open>t_ret\<close> (the \<^verbatim>\<open>exited_at\<close> of the returned dictionary).
  The returned dictionary is a \<open>PyDict\<close>, as its keys differ between the two returns.
\<close>

definition exit_maintenance ::
  "string option \<Rightarrow> string \<Rightarrow> string \<Rightarrow> string \<Rightarrow> store \<Rightarrow> maintenance_error + (pyval \<times> store)" where
  "exit_maintenance exited_by t_exit t_upd t_ret st =
     (let current_status = get_maintenance_status st in
      if \<not> in_maintenance current_status
      then Inr (PyDict [(PyStr ''in_maintenance'', PyBool False),
                        (PyStr ''message'', PyStr ''Not in maintenance mode'')], st)
      else
        (case (case select_flags st ''maintenance_mode'' of
                 [] \<Rightarrow> Inr st
               | r # _ \<Rightarrow>
                   (case deactivate (flag_value r) t_exit exited_by of
                      Inl e \<Rightarrow> Inl (Raised e)
                    | Inr flag \<Rightarrow>
                        Inr (update_flags st ''maintenance_mode'' (py_str flag) t_upd exited_by)))
         of Inl e \<Rightarrow> Inl e
          | Inr st1 \<Rightarrow>
              let st2 = (if truthy_opt exited_by
                         then notify st1 (AdminOverride (the exited_by) ''exit_maintenance''
                                            (level current_status) (reason current_status))
                         else st1)
              in Inr (PyDict [(PyStr ''in_maintenance'', PyBool False),
                              (PyStr ''message'', PyStr ''Maintenance mode exited''),
                              (PyStr ''exited_by'', py_opt exited_by),
                              (PyStr ''exited_at'', PyStr t_ret)], st2)))"

text \<open>The notifications that a call of \<^verbatim>\<open>exit_maintenance\<close> added, None when it raised.\<close>

definition exit_notifications ::
  "string option \<Rightarrow> string \<Rightarrow> string \<Rightarrow> string \<Rightarrow> store \<Rightarrow> notification list option" where
  "exit_notifications exited_by t_exit t_upd t_ret st =
     (case exit_maintenance exited_by t_exit t_upd t_ret st of
        Inl e \<Rightarrow> None
      | Inr (res, st') \<Rightarrow> Some (drop (length (notifications st)) (notifications st')))"

text \<open>The order of the levels: no episode, soft, hard.\<close>

definition level_rank :: "maintenance_status \<Rightarrow> nat" where
  "level_rank s =
     (if \<not> in_maintenance s then 0
      else if level s = PyStr ''hard'' then 2
      else if level s = PyStr ''soft'' then 1
      else 0)"

text \<open>The stored flag that \<^verbatim>\<open>get_maintenance_status\<close> reads: the first row of the name.\<close>

definition stored_flag :: "store \<Rightarrow> flag_text option" where
  "stored_flag st =
     (case select_flags st ''maintenance_mode'' of [] \<Rightarrow> None | r # _ \<Rightarrow> Some (flag_value r))"

text \<open>A field of the stored flag, when the flag is a dictionary that has it.\<close>

definition stored_field :: "store \<Rightarrow> string \<Rightarrow> pyval option" where
  "stored_field st k =
     (case stored_flag st of
        Some (Literal (PyDict kvs)) \<Rightarrow> map_of kvs (PyStr k)
      | _ \<Rightarrow> None)"

subsection \<open>Example stores\<close>

definition example_keys :: "api_key list" where
  "example_keys =
     [\<lparr>key_id = ''k1'', provider = ''gemini'', feature = ''chat'', key_value = ''x'',
       priority = 10, status = ''active'', failure_count = 0\<rparr>,
      \<lparr>key_id = ''k2'', provider = ''gemini'', feature = ''mcq'', key_value = ''y'',
       priority = 5, status = ''disabled'', failure_count = 7\<rparr>,
      \<lparr>key_id = ''k3'', provider = ''gemini'', feature = ''chat'', key_value = ''z'',
       priority = 50, status = ''active'', failure_count = 1\<rparr>]"

definition empty_store :: store where
  "empty_store = \<lparr>api_keys = example_keys, system_flags = [], notifications = []\<rparr>"

text \<open>A store in a soft episode, as \<^verbatim>\<open>enter_maintenance\<close> leaves it.\<close>

definition soft_store :: store where
  "soft_store =
     \<lparr>api_keys = example_keys,
      system_flags =
        [\<lparr>flag_name = ''maintenance_mode'',
          flag_value = Literal (maintenance_data ''soft'' ''keys failed'' (Some ''chat'') None ''t0''),
          updated_at = ''t0'', updated_by = None\<rparr>],
      notifications = []\<rparr>"

definition hard_store :: store where
  "hard_store =
     \<lparr>api_keys = example_keys,
      system_flags =
        [\<lparr>flag_name = ''maintenance_mode'',
          flag_value = Literal (maintenance_data ''hard'' ''keys failed'' (Some ''chat'') None ''t0''),
          updated_at = ''t0'', updated_by = None\<rparr>],
      notifications = []\<rparr>"

text \<open>The store after script \<^verbatim>\<open>exit_maintenance.py\<close> wrote the text \<^verbatim>\<open>off\<close>.\<close>

definition off_store :: store where
  "off_store =
     \<lparr>api_keys = example_keys,
      system_flags =
        [\<lparr>flag_name = ''maintenance_mode'', flag_value = Unparseable ''off'',
          updated_at = ''t0'', updated_by = None\<rparr>],
      notifications = []\<rparr>"

section \<open>Gemini provider\<close>

text \<open>
  What \<^verbatim>\<open>call_gemini\<close> returns: \<^verbatim>\<open>success\<close>, \<^verbatim>\<open>content\<close> (only on success),
  \<^verbatim>\<open>error\<close> (only on failure) and \<^verbatim>\<open>tokens_used\<close>. The error texts are constructors:
  \<open>ApiError status message\<close> for \<^verbatim>\<open>Gemini API error (status): message\<close>,
  \<open>NoResponseGenerated\<close> for \<^verbatim>\<open>No response generated by Gemini\<close>,
  \<open>NoContentInResponse\<close> for \<^verbatim>\<open>No content in Gemini response\<close>,
  \<open>RequestTimedOut\<close> for \<^verbatim>\<open>Request timed out\<close>,
  \<open>NetworkError e\<close> for \<^verbatim>\<open>Network error: e\<close> and
  \<open>UnexpectedError e\<close> for \<^verbatim>\<open>Unexpected error: e\<close>.
\<close>

datatype gemini_error =
    ApiError int pyval
  | NoResponseGenerated
  | NoContentInResponse
  | RequestTimedOut
  | NetworkError string
  | UnexpectedError pyexc

record provider_result =
  success :: bool
  content :: "pyval option"
  error :: "gemini_error option"
  tokens_used :: pyval

text \<open>
  The outcome of \<^verbatim>\<open>await self.client.post(...)\<close> is the environment's: a timeout, a
  request error, any other exception, or a response with its status code, its text and
  what \<^verbatim>\<open>response.json()\<close> gives (a value, or an exception on a body that is not JSON).
  The request payload has no part in what is returned and is not modelled.
\<close>

datatype http_outcome =
    TimeoutException
  | RequestError string
  | OtherException pyexc
  | Response int string "pyexc + pyval"

definition failure :: "gemini_error \<Rightarrow> provider_result" where
  "failure e = \<lparr>success = False, content = None, error = Some e, tokens_used = PyInt 0\<rparr>"

text \<open>
  \<^verbatim>\<open>error_json.get("error", {}).get("message", error_detail)\<close> under a bare
  \<^verbatim>\<open>except\<close> that falls back to \<^verbatim>\<open>error_detail\<close>, the text of the response.
\<close>

definition error_message :: "string \<Rightarrow> pyexc + pyval \<Rightarrow> pyval" where
  "error_message error_detail js =
     (case and_then js (\<lambda>error_json.
           and_then (py_get error_json ''error'' (PyDict [])) (\<lambda>err.
           py_get err ''message'' (PyStr error_detail)))
      of Inl e \<Rightarrow> PyStr error_detail
       | Inr m \<Rightarrow> m)"

text \<open>
  \<^verbatim>\<open>len(prompt) // 4 + len(generated_text) // 4\<close>; \<^verbatim>\<open>len\<close> raises on a text that has
  no length.
\<close>

definition estimate_tokens :: "string \<Rightarrow> pyval \<Rightarrow> pyexc + pyval" where
  "estimate_tokens prompt generated_text =
     and_then (py_len generated_text) (\<lambda>n. Inr (PyInt (int (length prompt div 4 + n div 4))))"

text \<open>The statements after the status check, inside the \<^verbatim>\<open>try\<close> block.\<close>

definition parse_response :: "string \<Rightarrow> pyexc + pyval \<Rightarrow> pyexc + provider_result" where
  "parse_response prompt js =
     and_then js (\<lambda>response_data.
     and_then (py_get response_data ''candidates'' (PyList [])) (\<lambda>candidates.
     if \<not> py_truthy candidates then Inr (failure NoResponseGenerated)
     else
       and_then (py_first candidates) (\<lambda>candidate.
       and_then (py_get candidate ''content'' (PyDict [])) (\<lambda>cont.
       and_then (py_get cont ''parts'' (PyList [])) (\<lambda>parts.
       if \<not> py_truthy parts then Inr (failure NoContentInResponse)
       else
         and_then (py_first parts) (\<lambda>part.
         and_then (py_get part ''text'' (PyStr [])) (\<lambda>generated_text.
         and_then (py_get response_data ''usageMetadata'' (PyDict [])) (\<lambda>usage_metadata.
         and_then (py_get usage_metadata ''totalTokenCount'' (PyInt 0)) (\<lambda>reported.
         and_then (if py_is_zero reported then estimate_tokens prompt generated_text
                   else Inr reported) (\<lambda>tokens.
         Inr \<lparr>success = True, content = Some generated_text, error = None,
              tokens_used = tokens\<rparr>))))))))))"

definition call_gemini :: "string \<Rightarrow> string \<Rightarrow> string option \<Rightarrow> http_outcome \<Rightarrow> provider_result" where
  "call_gemini api_key prompt system_prompt outcome =
     (case outcome of
        TimeoutException \<Rightarrow> failure RequestTimedOut
      | RequestError e \<Rightarrow> failure (NetworkError e)
      | OtherException e \<Rightarrow> failure (UnexpectedError e)
      | Response status_code body js \<Rightarrow>
          if status_code \<noteq> 200 then failure (ApiError status_code (error_message body js))
          else (case parse_response prompt js of
                  Inl e \<Rightarrow> failure (UnexpectedError e)
                | Inr r \<Rightarrow> r))"

text \<open>
  The usage that the provider reports: \<^verbatim>\<open>usageMetadata.totalTokenCount\<close> of the response
  body, when both keys are there.
\<close>

definition reported_usage :: "pyval \<Rightarrow> pyval option" where
  "reported_usage response_data =
     (case response_data of
        PyDict kvs \<Rightarrow>
          (case map_of kvs (PyStr ''usageMetadata'') of
             Some (PyDict u) \<Rightarrow> map_of u (PyStr ''totalTokenCount'')
           | _ \<Rightarrow> None)
      | _ \<Rightarrow> None)"

text \<open>A response body with one candidate of one part with the given text, and no usage.\<close>

definition body_with_text :: "string \<Rightarrow> pyval" where
  "body_with_text t =
     PyDict [(PyStr ''candidates'',
              PyList [PyDict [(PyStr ''content'',
                               PyDict [(PyStr ''parts'',
                                        PyList [PyDict [(PyStr ''text'', PyStr t)]])])]])]"

text \<open>The same with a reported usage.\<close>

definition body_with_usage :: "string \<Rightarrow> int \<Rightarrow> pyval" where
  "body_with_usage t n =
     PyDict [(PyStr ''candidates'',
              PyList [PyDict [(PyStr ''content'',
                               PyDict [(PyStr ''parts'',
                                        PyList [PyDict [(PyStr ''text'', PyStr t)]])])]]),
             (PyStr ''usageMetadata'', PyDict [(PyStr ''totalTokenCount'', PyInt n)])]"

section \<open>Encryption service\<close>

type_synonym byte = "8 word"

text \<open>
  The plaintext is a Python \<^verbatim>\<open>str\<close>: a sequence of code points below \<^verbatim>\<open>0x110000\<close>,
  lone surrogates (\<^verbatim>\<open>0xD800\<close> to \<^verbatim>\<open>0xDFFF\<close>) among them. The ciphertext is Base64
  text and stays a \<open>string\<close>.
\<close>

type_synonym unicode = "nat list"

text \<open>
  What a statement inside a \<^verbatim>\<open>try\<close> block of the service raises: \<^verbatim>\<open>InvalidTag\<close>
  of package \<^verbatim>\<open>cryptography\<close>, the errors of the UTF-8 codec, the \<^verbatim>\<open>ValueError\<close>
  with text \<^verbatim>\<open>Invalid ciphertext: too short\<close>, the \<^verbatim>\<open>ValueError\<close> with text
  \<^verbatim>\<open>Encryption key must be 32 bytes (256 bits), got N bytes. Generate a valid key
  with: ...\<close> (it carries \<^verbatim>\<open>N\<close>), or any other exception of a library with its text.
\<close>

datatype crypto_exc =
    InvalidTag
  | UnicodeEncodeError
  | UnicodeDecodeError
  | CiphertextTooShort
  | KeyLength nat
  | CryptoError string

subsection \<open>The UTF-8 codec\<close>

text \<open>
  \<^verbatim>\<open>str.encode('utf-8')\<close> and \<^verbatim>\<open>bytes.decode('utf-8')\<close>, both strict: a surrogate
  cannot be encoded; a byte sequence decodes only when it is the shortest encoding of
  code points that are not surrogates.
\<close>

definition is_surrogate :: "nat \<Rightarrow> bool" where
  "is_surrogate c \<longleftrightarrow> 0xD800 \<le> c \<and> c \<le> 0xDFFF"

definition encode_char :: "nat \<Rightarrow> nat list option" where
  "encode_char c =
     (if c < 0x80 then Some [c]
      else if c < 0x800 then Some [0xC0 + c div 64, 0x80 + c mod 64]
      else if is_surrogate c then None
      else if c < 0x10000
        then Some [0xE0 + c div 4096, 0x80 + c div 64 mod 64, 0x80 + c mod 64]
      else if c < 0x110000
        then Some [0xF0 + c div 262144, 0x80 + c div 4096 mod 64, 0x80 + c div 64 mod 64,
                   0x80 + c mod 64]
      else None)"

fun utf8_encode_nats :: "nat list \<Rightarrow> nat list option" where
  "utf8_encode_nats [] = Some []"
| "utf8_encode_nats (c # cs) =
     (case encode_char c of
        None \<Rightarrow> None
      | Some bs \<Rightarrow> map_option (\<lambda>r. bs @ r) (utf8_encode_nats cs))"

definition is_continuation :: "nat \<Rightarrow> bool" where
  "is_continuation b \<longleftrightarrow> 0x80 \<le> b \<and> b < 0xC0"

fun utf8_decode_nats :: "nat list \<Rightarrow> nat list option" where
  "utf8_decode_nats [] = Some []"
| "utf8_decode_nats (b0 # bs) =
     (if b0 < 0x80 then map_option (\<lambda>r. b0 # r) (utf8_decode_nats bs)
      else if 0xC2 \<le> b0 \<and> b0 < 0xE0 then
        (case bs of
           b1 # r \<Rightarrow>
             if is_continuation b1
             then map_option (\<lambda>s. ((b0 - 0xC0) * 64 + (b1 - 0x80)) # s) (utf8_decode_nats r)
             else None
         | _ \<Rightarrow> None)
      else if 0xE0 \<le> b0 \<and> b0 < 0xF0 then
        (case bs of
           b1 # b2 # r \<Rightarrow>
             let c = (b0 - 0xE0) * 4096 + (b1 - 0x80) * 64 + (b2 - 0x80) in
             if is_continuation b1 \<and> is_continuation b2 \<and> 0x800 \<le> c \<and> \<not> is_surrogate c
             then map_option (\<lambda>s. c # s) (utf8_decode_nats r)
             else None
         | _ \<Rightarrow> None)
      else if 0xF0 \<le> b0 \<and> b0 < 0xF5 then
        (case bs of
           b1 # b2 # b3 # r \<Rightarrow>
             let c = (b0 - 0xF0) * 262144 + (b1 - 0x80) * 4096 + (b2 - 0x80) * 64 + (b3 - 0x80) in
             if is_continuation b1 \<and> is_continuation b2 \<and> is_continuation b3
                \<and> 0x10000 \<le> c \<and> c < 0x110000
             then map_option (\<lambda>s. c # s) (utf8_decode_nats r)
             else None
         | _ \<Rightarrow> None)
      else None)"

definition utf8_encode :: "unicode \<Rightarrow> crypto_exc + byte list" where
  "utf8_encode s =
     (case utf8_encode_nats s of
        None \<Rightarrow> Inl UnicodeEncodeError
      | Some ns \<Rightarrow> Inr (map of_nat ns))"

definition utf8_decode :: "byte list \<Rightarrow> crypto_exc + unicode" where
  "utf8_decode bs =
     (case utf8_decode_nats (map unat bs) of
        None \<Rightarrow> Inl UnicodeDecodeError
      | Some s \<Rightarrow> Inr s)"

subsection \<open>The libraries\<close>

text \<open>
  The other library functions that the service calls are parameters:
  \<^verbatim>\<open>AESGCM(key).encrypt\<close> and \<^verbatim>\<open>AESGCM(key).decrypt\<close> with no associated data
  (arguments key, nonce, data), \<^verbatim>\<open>base64.b64encode\<close> and \<^verbatim>\<open>base64.b64decode\<close>.
\<close>

record crypto_lib =
  aesgcm_encrypt :: "byte list \<Rightarrow> byte list \<Rightarrow> byte list \<Rightarrow> crypto_exc + byte list"
  aesgcm_decrypt :: "byte list \<Rightarrow> byte list \<Rightarrow> byte list \<Rightarrow> crypto_exc + byte list"
  b64encode :: "byte list \<Rightarrow> string"
  b64decode :: "string \<Rightarrow> crypto_exc + byte list"

text \<open>
  What these libraries promise and the service relies on: Base64 decodes what it
  encoded and encodes only the empty byte string as the empty text; AES-GCM with a key of
  32 bytes and a nonce of 12 bytes encrypts every plaintext and decrypts, under the same
  key and nonce, what it encrypted.
\<close>

definition lib_contract :: "crypto_lib \<Rightarrow> bool" where
  "lib_contract lib \<longleftrightarrow>
     (\<forall>bs. b64decode lib (b64encode lib bs) = Inr bs)
   \<and> (\<forall>bs. b64encode lib bs = [] \<longrightarrow> bs = [])
   \<and> (\<forall>k n p. length k = 32 \<and> length n = 12 \<longrightarrow>
          (\<exists>c. aesgcm_encrypt lib k n p = Inr c \<and> aesgcm_decrypt lib k n c = Inr p))"

subsection \<open>The service\<close>

text \<open>
  The \<^verbatim>\<open>ValueError\<close>s of the service, by their text: \<open>KeyNotFound\<close> for
  \<^verbatim>\<open>Encryption key not found. ...\<close>, \<open>InvalidKey e\<close> for \<^verbatim>\<open>Invalid encryption key: e\<close>,
  \<open>EmptyPlaintext\<close> for \<^verbatim>\<open>Cannot encrypt empty plaintext\<close>,
  \<open>EncryptFailed e\<close> for \<^verbatim>\<open>Failed to encrypt API key: e\<close>,
  \<open>EmptyCiphertext\<close> for \<^verbatim>\<open>Cannot decrypt empty ciphertext\<close>,
  \<open>AuthenticationFailed\<close> for \<^verbatim>\<open>Failed to decrypt API key: Authentication tag verification
  failed. The data may have been tampered with or the wrong key was used.\<close> and
  \<open>DecryptFailed e\<close> for \<^verbatim>\<open>Failed to decrypt API key: e\<close>, where \<open>e\<close> is the
  exception that was caught.
\<close>

datatype encryption_error =
    KeyNotFound
  | InvalidKey crypto_exc
  | EmptyPlaintext
  | EncryptFailed crypto_exc
  | EmptyCiphertext
  | AuthenticationFailed
  | DecryptFailed crypto_exc

record encryption_service =
  key :: "byte list"

text \<open>
  \<^verbatim>\<open>EncryptionService.__init__\<close>: the key is the argument, or the environment variable
  when the argument is None or empty; it must decode to 32 bytes. The \<^verbatim>\<open>ValueError\<close> on
  the length is raised inside the \<^verbatim>\<open>try\<close> block and comes out as an invalid key.
\<close>

definition new_service ::
  "crypto_lib \<Rightarrow> string option \<Rightarrow> string option \<Rightarrow> encryption_error + encryption_service" where
  "new_service lib encryption_key env =
     (let key_b64 = (if truthy_opt encryption_key then encryption_key else env) in
      if \<not> truthy_opt key_b64 then Inl KeyNotFound
      else
        (case and_then (b64decode lib (the key_b64)) (\<lambda>k.
               if length k \<noteq> 32 then Inl (KeyLength (length k)) else Inr \<lparr>key = k\<rparr>)
         of Inl e \<Rightarrow> Inl (InvalidKey e)
          | Inr svc \<Rightarrow> Inr svc))"

text \<open>
  \<^verbatim>\<open>encrypt_key\<close>. The 12 bytes that \<^verbatim>\<open>os.urandom(12)\<close> draws are argument \<open>nonce\<close>.
\<close>

definition encrypt_key ::
  "crypto_lib \<Rightarrow> encryption_service \<Rightarrow> byte list \<Rightarrow> unicode \<Rightarrow> encryption_error + string" where
  "encrypt_key lib svc nonce plaintext =
     (if plaintext = [] then Inl EmptyPlaintext
      else
        (case and_then (utf8_encode plaintext) (\<lambda>data.
              and_then (aesgcm_encrypt lib (key svc) nonce data) (\<lambda>ciphertext.
              Inr (b64encode lib (nonce @ ciphertext))))
         of Inl e \<Rightarrow> Inl (EncryptFailed e)
          | Inr encrypted_b64 \<Rightarrow> Inr encrypted_b64))"

text \<open>
  \<^verbatim>\<open>decrypt_key\<close>. The \<^verbatim>\<open>ValueError\<close> on a blob shorter than 12 bytes is raised inside
  the \<^verbatim>\<open>try\<close> block, so it is caught by \<^verbatim>\<open>except Exception\<close> and raised again with
  the prefix of a failed decryption. \<^verbatim>\<open>except InvalidTag\<close> comes first.
\<close>

definition decrypt_key ::
  "crypto_lib \<Rightarrow> encryption_service \<Rightarrow> string \<Rightarrow> encryption_error + unicode" where
  "decrypt_key lib svc ciphertext =
     (if ciphertext = [] then Inl EmptyCiphertext
      else
        (case and_then (b64decode lib ciphertext) (\<lambda>encrypted_data.
              if length encrypted_data < 12 then Inl CiphertextTooShort
              else
                and_then (aesgcm_decrypt lib (key svc) (take 12 encrypted_data)
                            (drop 12 encrypted_data)) (\<lambda>plaintext_bytes.
                utf8_decode plaintext_bytes))
         of Inl e \<Rightarrow> if e = InvalidTag then Inl AuthenticationFailed else Inl (DecryptFailed e)
          | Inr plaintext \<Rightarrow> Inr plaintext))"

text \<open>
  The results of \<open>n\<close> successive calls of \<^verbatim>\<open>decrypt_key\<close> on one ciphertext. A call
  assigns to no attribute of the service, so every call is made on the same service.
\<close>

fun decrypt_repeatedly ::
  "crypto_lib \<Rightarrow> encryption_service \<Rightarrow> string \<Rightarrow> nat \<Rightarrow> (encryption_error + unicode) list" where
  "decrypt_repeatedly lib svc ciphertext 0 = []"
| "decrypt_repeatedly lib svc ciphertext (Suc n) =
     decrypt_key lib svc ciphertext # decrypt_repeatedly lib svc ciphertext n"

subsection \<open>A library to compute with\<close>

text \<open>
  Stand-ins with the shape of the library functions, on which the service can be run:
  a code that writes each byte as one character, a cipher that adds 1 to each byte
  and appends 16 bytes of a checksum of key, nonce and plaintext.
\<close>

definition toy_tag :: "byte list \<Rightarrow> byte list \<Rightarrow> byte list \<Rightarrow> byte list" where
  "toy_tag k n p = replicate 16 (sum_list (k @ n @ p))"

definition toy_encrypt :: "byte list \<Rightarrow> byte list \<Rightarrow> byte list \<Rightarrow> crypto_exc + byte list" where
  "toy_encrypt k n p = Inr (map (\<lambda>b. b + 1) p @ toy_tag k n p)"

definition toy_decrypt :: "byte list \<Rightarrow> byte list \<Rightarrow> byte list \<Rightarrow> crypto_exc + byte list" where
  "toy_decrypt k n c =
     (if length c < 16 then Inl InvalidTag
      else
        let p = map (\<lambda>b. b - 1) (take (length c - 16) c) in
        if drop (length c - 16) c = toy_tag k n p then Inr p else Inl InvalidTag)"

definition byte_of_char :: "char \<Rightarrow> byte" where
  "byte_of_char c = of_nat (of_char c)"

definition char_of_byte :: "byte \<Rightarrow> char" where
  "char_of_byte b = char_of (unat b)"

definition toy_lib :: crypto_lib where
  "toy_lib =
     \<lparr>aesgcm_encrypt = toy_encrypt,
      aesgcm_decrypt = toy_decrypt,
      b64encode = map char_of_byte,
      b64decode = (\<lambda>s. Inr (map byte_of_char s))\<rparr>"

definition toy_service :: encryption_service where
  "toy_service = \<lparr>key = replicate 32 7\<rparr>"

section \<open>Model router\<close>

text \<open>
  Module \<^verbatim>\<open>services/model_router.py\<close> with class \<^verbatim>\<open>ModelRouterService\<close> is not among
  the sources; only its callers and its tests are. The definitions of this section follow
  sections 4.2 and 4.3 of the specification.
\<close>

text \<open>
  Modelled from the spec: \<^verbatim>\<open>ModelRouterService.get_all_active_keys\<close>, which is missing.
  It returns all records of provider and feature with status active, ordered by
  priority descending; ties stay in store order.
\<close>

definition get_all_active_keys :: "store \<Rightarrow> string \<Rightarrow> string \<Rightarrow> api_key list" where
  "get_all_active_keys st prov feat =
     sort_key (\<lambda>k. - priority k)
       (filter (\<lambda>k. provider k = prov \<and> feature k = feat \<and> status k = ''active'')
          (api_keys st))"

record router_result = provider_result +
  result_key_id :: "string option"
  attempts :: nat

text \<open>
  Modelled from the spec: the loop of \<^verbatim>\<open>ModelRouterService.execute_with_fallback\<close>,
  which is missing (steps 3 to 6 of section 4.3). Each key is tried by one adapter call;
  on success the result is returned at once with the content, the tokens, the key and
  the number of the attempt; on failure the next key is tried; when no key is left the
  result is a failure with the number of attempts made. \<open>n\<close> attempts were made
  before, \<open>last_error\<close> is the error of the last one. The second component lists the
  keys that the adapter was called with. The adapter is a parameter: the answer to the
  \<open>n\<close>-th call, made with the given key. The calls of health monitor, notification
  service and maintenance service (steps 5 and 6) act on the store and not on the
  result, and are left out.
\<close>

fun try_keys ::
  "(nat \<Rightarrow> api_key \<Rightarrow> provider_result) \<Rightarrow> nat \<Rightarrow> gemini_error option \<Rightarrow> api_key list
     \<Rightarrow> router_result \<times> string list" where
  "try_keys adapter n last_error [] =
     (\<lparr>success = False, content = None, error = last_error, tokens_used = PyInt 0,
       result_key_id = None, attempts = n\<rparr>, [])"
| "try_keys adapter n last_error (k # ks) =
     (let r = adapter (Suc n) k in
      if success r
      then (\<lparr>success = True, content = content r, error = None, tokens_used = tokens_used r,
             result_key_id = Some (key_id k), attempts = Suc n\<rparr>, [key_id k])
      else
        (case try_keys adapter (Suc n) (error r) ks of
           (res, called) \<Rightarrow> (res, key_id k # called)))"

text \<open>
  Modelled from the spec: \<^verbatim>\<open>ModelRouterService.execute_with_fallback\<close>, which is
  missing (steps 1 and 2 of section 4.3). The active keys are fetched and iterated in
  priority order, stopping at \<^verbatim>\<open>max_retries\<close> attempts.
\<close>

definition execute_with_fallback ::
  "(nat \<Rightarrow> api_key \<Rightarrow> provider_result) \<Rightarrow> store \<Rightarrow> string \<Rightarrow> string \<Rightarrow> nat
     \<Rightarrow> router_result \<times> string list" where
  "execute_with_fallback adapter st prov feat max_retries =
     try_keys adapter 0 None (take max_retries (get_all_active_keys st prov feat))"

text \<open>An adapter that fails on the key of priority 50 and succeeds on every other key.\<close>

definition flaky_adapter :: "nat \<Rightarrow> api_key \<Rightarrow> provider_result" where
  "flaky_adapter n k =
     (if priority k = 50 then failure RequestTimedOut
      else \<lparr>success = True, content = Some (PyStr ''answer''), error = None,
            tokens_used = PyInt 10\<rparr>)"

text \<open>An adapter that always fails.\<close>

definition failing_adapter :: "nat \<Rightarrow> api_key \<Rightarrow> provider_result" where
  "failing_adapter n k = failure RequestTimedOut"

section \<open>Properties of the maintenance service\<close>

lemma count_status_zero: "count_status keys s = 0 \<longleftrightarrow> (\<forall>k \<in> set keys. status k \<noteq> s)"
  by (simp add: count_status_def filter_empty_conv)

text \<open>
  Claim C2. For every feature and every count of failures,
  \<^verbatim>\<open>evaluate_maintenance_trigger\<close> answers soft when the store has no key of the feature;
  hard when it has keys but none is active or degraded; soft when none is active but
  one is degraded; soft when one is active and the failures are 5 or more; and None
  in every other case.
\<close>

theorem evaluate_maintenance_trigger_cases:
  fixes st :: store and feat :: string and failures :: int
  defines "keys \<equiv> filter (\<lambda>k. feature k = feat) (api_keys st)"
  defines "has \<equiv> \<lambda>s. \<exists>k \<in> set keys. status k = s"
  shows "evaluate_maintenance_trigger st feat failures =
           (if keys = [] then Some ''soft''
            else if \<not> has ''active'' \<and> \<not> has ''degraded'' then Some ''hard''
            else if \<not> has ''active'' \<and> has ''degraded'' then Some ''soft''
            else if has ''active'' \<and> failures \<ge> 5 then Some ''soft''
            else None)"
proof -
  have a: "count_status keys s = 0 \<longleftrightarrow> \<not> has s" for s
    unfolding has_def by (simp add: count_status_zero)
  have e: "evaluate_maintenance_trigger st feat failures =
      (if keys = [] then Some ''soft''
       else if count_status keys ''active'' = 0 \<and> count_status keys ''degraded'' = 0
            then Some ''hard''
       else if count_status keys ''active'' = 0 \<and> count_status keys ''degraded'' > 0
            then Some ''soft''
       else if failures \<ge> 5 then Some ''soft'' else None)"
    unfolding evaluate_maintenance_trigger_def keys_def Let_def by (rule refl)
  show ?thesis
    unfolding e a neq0_conv[symmetric]
    by (cases "has ''active''"; cases "has ''degraded''"; simp only: a if_True if_False simp_thms)
qed

theorem evaluate_maintenance_trigger_cases_witness:
  "evaluate_maintenance_trigger empty_store ''chat'' 5 = Some ''soft''
   \<and> evaluate_maintenance_trigger empty_store ''mcq'' 5 = Some ''hard''
   \<and> evaluate_maintenance_trigger empty_store ''chat'' 4 = None
   \<and> evaluate_maintenance_trigger empty_store ''osce'' 0 = Some ''soft''"
  using evaluate_maintenance_trigger_cases [of empty_store "''chat''" 5]
        evaluate_maintenance_trigger_cases [of empty_store "''mcq''" 5]
        evaluate_maintenance_trigger_cases [of empty_store "''chat''" 4]
        evaluate_maintenance_trigger_cases [of empty_store "''osce''" 0]
  by (simp add: empty_store_def example_keys_def)

subsection \<open>Reading the flag\<close>

lemma select_flags_update:
  "select_flags (update_flags st n v at by) n =
     map (\<lambda>r. r\<lparr>flag_value := v, updated_at := at, updated_by := by\<rparr>) (select_flags st n)"
  unfolding select_flags_def update_flags_def
  by (induction "system_flags st" arbitrary: st) (simp_all add: filter_map comp_def cong: filter_cong)

lemma select_flags_insert:
  "select_flags st n = [] \<Longrightarrow>
   select_flags (insert_flag st n v at by) n =
     [\<lparr>flag_name = n, flag_value = v, updated_at = at, updated_by = by\<rparr>]"
  by (simp add: select_flags_def insert_flag_def)

lemma select_flags_notify: "select_flags (notify st x) n = select_flags st n"
  by (simp add: select_flags_def notify_def)

lemma status_by_rows:
  "select_flags st ''maintenance_mode'' = select_flags st' ''maintenance_mode'' \<Longrightarrow>
   get_maintenance_status st' = get_maintenance_status st"
  by (simp add: get_maintenance_status_def)

lemma parse_flag_cases:
  "parse_flag ft =
     (case ft of
        Unparseable s \<Rightarrow> Inl SyntaxError
      | Literal (PyDict kvs) \<Rightarrow>
          (case map_of kvs (PyStr ''is_active'') of
             None \<Rightarrow> Inr not_in_maintenance
           | Some a \<Rightarrow>
               if py_truthy a
               then Inr \<lparr>in_maintenance = True,
                         level = dict_get kvs ''level'',
                         reason = dict_get kvs ''reason'',
                         feature_of = dict_get kvs ''feature'',
                         triggered_by = dict_get kvs ''triggered_by'',
                         triggered_at = dict_get kvs ''triggered_at''\<rparr>
               else Inr not_in_maintenance)
      | Literal _ \<Rightarrow> Inl AttributeError)"
  unfolding parse_flag_def
  apply (cases ft; simp)
  subgoal for v by (cases v; simp split: option.split)
  done


lemma status_cases:
  "get_maintenance_status st =
     (case stored_flag st of
        None \<Rightarrow> not_in_maintenance
      | Some ft \<Rightarrow> (case parse_flag ft of Inl e \<Rightarrow> not_in_maintenance | Inr s \<Rightarrow> s))"
  by (simp add: get_maintenance_status_def stored_flag_def split: list.split)

lemma in_maintenance_iff:
  "in_maintenance (get_maintenance_status st) \<longleftrightarrow>
     (\<exists>kvs a. stored_flag st = Some (Literal (PyDict kvs))
              \<and> map_of kvs (PyStr ''is_active'') = Some a \<and> py_truthy a)"
  unfolding status_cases parse_flag_cases
  by (auto simp: not_in_maintenance_def split: option.splits flag_text.splits pyval.splits)

text \<open>
  Claim C8. \<^verbatim>\<open>get_maintenance_status\<close> only reads the store (it returns a status and
  no store) and returns for every store: when the flag is absent, when its text does not
  parse, when it parses to something that is not a dictionary, when the dictionary has no
  truthy \<^verbatim>\<open>is_active\<close>, and whenever the body of the \<^verbatim>\<open>try\<close> block raises, the
  answer is the status with \<^verbatim>\<open>in_maintenance\<close> false and every other field None.
  An episode is reported only for a dictionary with a truthy \<^verbatim>\<open>is_active\<close>.
\<close>

theorem get_maintenance_status_fail_open:
  "(stored_flag st = None
    \<or> (\<exists>s. stored_flag st = Some (Unparseable s))
    \<or> (\<exists>v. stored_flag st = Some (Literal v) \<and> (\<forall>kvs. v \<noteq> PyDict kvs))
    \<or> (\<exists>kvs. stored_flag st = Some (Literal (PyDict kvs))
              \<and> (case map_of kvs (PyStr ''is_active'') of None \<Rightarrow> True | Some a \<Rightarrow> \<not> py_truthy a))
    \<or> (\<exists>ft e. stored_flag st = Some ft \<and> parse_flag ft = Inl e)
      \<longrightarrow> get_maintenance_status st = not_in_maintenance)
   \<and> (in_maintenance (get_maintenance_status st) \<longleftrightarrow>
        (\<exists>kvs a. stored_flag st = Some (Literal (PyDict kvs))
                 \<and> map_of kvs (PyStr ''is_active'') = Some a \<and> py_truthy a))"
proof (intro conjI impI)
  assume "stored_flag st = None
    \<or> (\<exists>s. stored_flag st = Some (Unparseable s))
    \<or> (\<exists>v. stored_flag st = Some (Literal v) \<and> (\<forall>kvs. v \<noteq> PyDict kvs))
    \<or> (\<exists>kvs. stored_flag st = Some (Literal (PyDict kvs))
              \<and> (case map_of kvs (PyStr ''is_active'') of None \<Rightarrow> True | Some a \<Rightarrow> \<not> py_truthy a))
    \<or> (\<exists>ft e. stored_flag st = Some ft \<and> parse_flag ft = Inl e)"
  then show "get_maintenance_status st = not_in_maintenance"
  proof (elim disjE exE conjE)
    assume "stored_flag st = None"
    then show ?thesis by (simp add: status_cases)
  next
    fix s assume "stored_flag st = Some (Unparseable s)"
    then show ?thesis by (simp add: status_cases parse_flag_cases)
  next
    fix v assume "stored_flag st = Some (Literal v)" "\<forall>kvs. v \<noteq> PyDict kvs"
    then show ?thesis by (cases v) (simp_all add: status_cases parse_flag_cases)
  next
    fix kvs assume "stored_flag st = Some (Literal (PyDict kvs))"
      "case map_of kvs (PyStr ''is_active'') of None \<Rightarrow> True | Some a \<Rightarrow> \<not> py_truthy a"
    then show ?thesis by (simp add: status_cases parse_flag_cases split: option.splits)
  next
    fix ft e assume "stored_flag st = Some ft" "parse_flag ft = Inl e"
    then show ?thesis by (simp add: status_cases)
  qed
next
  show "in_maintenance (get_maintenance_status st) \<longleftrightarrow>
        (\<exists>kvs a. stored_flag st = Some (Literal (PyDict kvs))
                 \<and> map_of kvs (PyStr ''is_active'') = Some a \<and> py_truthy a)"
    by (rule in_maintenance_iff)
qed

theorem get_maintenance_status_fail_open_witness:
  "get_maintenance_status off_store = not_in_maintenance
   \<and> get_maintenance_status empty_store = not_in_maintenance
   \<and> in_maintenance (get_maintenance_status soft_store)"
proof -
  have a: "stored_flag off_store = Some (Unparseable ''off'')"
    by (simp add: stored_flag_def select_flags_def off_store_def)
  have b: "stored_flag empty_store = None"
    by (simp add: stored_flag_def select_flags_def empty_store_def)
  have c: "stored_flag soft_store =
             Some (Literal (maintenance_data ''soft'' ''keys failed'' (Some ''chat'') None ''t0''))"
    by (simp add: stored_flag_def select_flags_def soft_store_def)
  show ?thesis
    using get_maintenance_status_fail_open [of off_store]
          get_maintenance_status_fail_open [of empty_store]
          get_maintenance_status_fail_open [of soft_store]
    by (simp add: a b c maintenance_data_def)
qed


subsection \<open>Entering maintenance\<close>

lemma stored_flag_notify: "stored_flag (notify st x) = stored_flag st"
  by (simp add: stored_flag_def select_flags_notify)

lemma stored_flag_update:
  "select_flags st ''maintenance_mode'' \<noteq> [] \<Longrightarrow>
   stored_flag (update_flags st ''maintenance_mode'' v at by) = Some v"
  by (cases "select_flags st ''maintenance_mode''")
     (simp_all add: stored_flag_def select_flags_update)

lemma stored_flag_insert:
  "select_flags st ''maintenance_mode'' = [] \<Longrightarrow>
   stored_flag (insert_flag st ''maintenance_mode'' v at by) = Some v"
  by (simp add: stored_flag_def select_flags_insert)

lemma parse_maintenance_data:
  "parse_flag (Literal (maintenance_data lvl rsn feat by t)) =
     Inr \<lparr>in_maintenance = True, level = PyStr lvl, reason = PyStr rsn,
          feature_of = py_opt feat, triggered_by = py_opt by, triggered_at = PyStr t\<rparr>"
  by (simp add: parse_flag_cases maintenance_data_def dict_get_def)

lemma notify_fields:
  "notifications (notify st x) = notifications st @ [x]"
  "api_keys (notify st x) = api_keys st"
  by (simp_all add: notify_def)

lemma update_flags_fields:
  "notifications (update_flags st n v at by) = notifications st"
  "api_keys (update_flags st n v at by) = api_keys st"
  by (simp_all add: update_flags_def)

lemma insert_flag_fields:
  "notifications (insert_flag st n v at by) = notifications st"
  "api_keys (insert_flag st n v at by) = api_keys st"
  by (simp_all add: insert_flag_def)

lemma enter_maintenance_writes:
  assumes "lvl = ''soft'' \<or> lvl = ''hard''"
    and "\<not> (in_maintenance (get_maintenance_status st)
            \<and> \<not> (level (get_maintenance_status st) = PyStr ''soft'' \<and> lvl = ''hard''))"
  shows "\<exists>st'. enter_maintenance lvl rsn feat by t1 t2 st =
                 Inr (\<lparr>in_maintenance = True, level = PyStr lvl, reason = PyStr rsn,
                       feature_of = py_opt feat, triggered_by = py_opt by,
                       triggered_at = PyStr t1\<rparr>, st')
               \<and> stored_flag st' = Some (Literal (maintenance_data lvl rsn feat by t1))
               \<and> notifications st' = notifications st @ [MaintenanceTriggered lvl rsn feat]
               \<and> api_keys st' = api_keys st"
proof (cases "select_flags st ''maintenance_mode'' = []")
  case True
  with assms show ?thesis
    unfolding enter_maintenance_def Let_def
    by (auto simp: stored_flag_notify stored_flag_insert py_str_def notify_fields insert_flag_fields)
next
  case False
  with assms show ?thesis
    unfolding enter_maintenance_def Let_def
    by (auto simp: stored_flag_notify stored_flag_update py_str_def notify_fields update_flags_fields)
qed

lemma enter_maintenance_keeps:
  assumes "lvl = ''soft'' \<or> lvl = ''hard''"
    and "in_maintenance (get_maintenance_status st)"
    and "\<not> (level (get_maintenance_status st) = PyStr ''soft'' \<and> lvl = ''hard'')"
  shows "enter_maintenance lvl rsn feat by t1 t2 st = Inr (get_maintenance_status st, st)"
  using assms unfolding enter_maintenance_def Let_def by auto

lemma status_of_written:
  "stored_flag st = Some (Literal (maintenance_data lvl rsn feat by t)) \<Longrightarrow>
   get_maintenance_status st =
     \<lparr>in_maintenance = True, level = PyStr lvl, reason = PyStr rsn,
      feature_of = py_opt feat, triggered_by = py_opt by, triggered_at = PyStr t\<rparr>"
  by (simp add: status_cases parse_maintenance_data)

text \<open>
  Claim C3. \<^verbatim>\<open>enter_maintenance\<close> with a valid level never lowers the level. During
  an episode, unless the episode is soft and the call asks for hard, the call returns
  the current status and leaves the store as it is; so a call during a hard episode,
  with soft or with hard, leaves the level hard. A call with hard during a soft
  episode stores level hard, which is what the next status read reports. In every case
  the call returns and the level read afterwards is not below the level read before.
\<close>

theorem enter_maintenance_never_lowers:
  assumes valid: "lvl = ''soft'' \<or> lvl = ''hard''"
  shows "(in_maintenance (get_maintenance_status st)
            \<and> \<not> (level (get_maintenance_status st) = PyStr ''soft'' \<and> lvl = ''hard'')
          \<longrightarrow> enter_maintenance lvl rsn feat by t1 t2 st = Inr (get_maintenance_status st, st))
       \<and> (in_maintenance (get_maintenance_status st)
            \<and> level (get_maintenance_status st) = PyStr ''hard''
          \<longrightarrow> (\<exists>s st'. enter_maintenance lvl rsn feat by t1 t2 st = Inr (s, st')
                        \<and> s = get_maintenance_status st \<and> st' = st
                        \<and> level (get_maintenance_status st') = PyStr ''hard''))
       \<and> (in_maintenance (get_maintenance_status st)
            \<and> level (get_maintenance_status st) = PyStr ''soft'' \<and> lvl = ''hard''
          \<longrightarrow> (\<exists>s st'. enter_maintenance lvl rsn feat by t1 t2 st = Inr (s, st')
                        \<and> level s = PyStr ''hard''
                        \<and> stored_field st' ''level'' = Some (PyStr ''hard'')
                        \<and> in_maintenance (get_maintenance_status st')
                        \<and> level (get_maintenance_status st') = PyStr ''hard''))
       \<and> (\<exists>s st'. enter_maintenance lvl rsn feat by t1 t2 st = Inr (s, st')
                   \<and> level_rank (get_maintenance_status st)
                       \<le> level_rank (get_maintenance_status st'))"
proof (intro conjI impI)
  assume "in_maintenance (get_maintenance_status st)
            \<and> \<not> (level (get_maintenance_status st) = PyStr ''soft'' \<and> lvl = ''hard'')"
  then show "enter_maintenance lvl rsn feat by t1 t2 st = Inr (get_maintenance_status st, st)"
    using valid by (simp add: enter_maintenance_keeps)
next
  assume "in_maintenance (get_maintenance_status st)
            \<and> level (get_maintenance_status st) = PyStr ''hard''"
  then show "\<exists>s st'. enter_maintenance lvl rsn feat by t1 t2 st = Inr (s, st')
                        \<and> s = get_maintenance_status st \<and> st' = st
                        \<and> level (get_maintenance_status st') = PyStr ''hard''"
    using valid by (simp add: enter_maintenance_keeps)
next
  assume a: "in_maintenance (get_maintenance_status st)
            \<and> level (get_maintenance_status st) = PyStr ''soft'' \<and> lvl = ''hard''"
  then obtain st' where
      e: "enter_maintenance lvl rsn feat by t1 t2 st =
            Inr (\<lparr>in_maintenance = True, level = PyStr lvl, reason = PyStr rsn,
                  feature_of = py_opt feat, triggered_by = py_opt by,
                  triggered_at = PyStr t1\<rparr>, st')"
    and f: "stored_flag st' = Some (Literal (maintenance_data lvl rsn feat by t1))"
    using enter_maintenance_writes [OF valid, of st rsn feat "by" t1 t2] by auto
  from f have "stored_field st' ''level'' = Some (PyStr lvl)"
    by (simp add: stored_field_def maintenance_data_def)
  with a e status_of_written [OF f]
  show "\<exists>s st'. enter_maintenance lvl rsn feat by t1 t2 st = Inr (s, st')
                        \<and> level s = PyStr ''hard''
                        \<and> stored_field st' ''level'' = Some (PyStr ''hard'')
                        \<and> in_maintenance (get_maintenance_status st')
                        \<and> level (get_maintenance_status st') = PyStr ''hard''"
    by simp
next
  show "\<exists>s st'. enter_maintenance lvl rsn feat by t1 t2 st = Inr (s, st')
                   \<and> level_rank (get_maintenance_status st)
                       \<le> level_rank (get_maintenance_status st')"
  proof (cases "in_maintenance (get_maintenance_status st)
                  \<and> \<not> (level (get_maintenance_status st) = PyStr ''soft'' \<and> lvl = ''hard'')")
    case True
    then show ?thesis using valid by (simp add: enter_maintenance_keeps)
  next
    case False
    then obtain st' where
        e: "enter_maintenance lvl rsn feat by t1 t2 st =
              Inr (\<lparr>in_maintenance = True, level = PyStr lvl, reason = PyStr rsn,
                    feature_of = py_opt feat, triggered_by = py_opt by,
                    triggered_at = PyStr t1\<rparr>, st')"
      and f: "stored_flag st' = Some (Literal (maintenance_data lvl rsn feat by t1))"
      using enter_maintenance_writes [OF valid, of st rsn feat "by" t1 t2] by auto
    have "level_rank (get_maintenance_status st) \<le> level_rank (get_maintenance_status st')"
      using False valid unfolding status_of_written [OF f]
      by (auto simp: level_rank_def)
    with e show ?thesis by simp
  qed
qed

theorem enter_maintenance_never_lowers_witness:
  "enter_maintenance ''soft'' ''again'' None None ''t1'' ''t2'' hard_store
     = Inr (get_maintenance_status hard_store, hard_store)
   \<and> level (get_maintenance_status hard_store) = PyStr ''hard''
   \<and> (\<exists>s st'. enter_maintenance ''hard'' ''worse'' None None ''t1'' ''t2'' soft_store = Inr (s, st')
              \<and> level (get_maintenance_status st') = PyStr ''hard'')"
proof -
  have h: "get_maintenance_status hard_store =
        \<lparr>in_maintenance = True, level = PyStr ''hard'', reason = PyStr ''keys failed'',
          feature_of = PyStr ''chat'', triggered_by = PyNone, triggered_at = PyStr ''t0''\<rparr>"
    by (simp add: get_maintenance_status_def select_flags_def hard_store_def
                  parse_maintenance_data)
  have s: "get_maintenance_status soft_store =
        \<lparr>in_maintenance = True, level = PyStr ''soft'', reason = PyStr ''keys failed'',
          feature_of = PyStr ''chat'', triggered_by = PyNone, triggered_at = PyStr ''t0''\<rparr>"
    by (simp add: get_maintenance_status_def select_flags_def soft_store_def
                  parse_maintenance_data)
  show ?thesis
    using enter_maintenance_never_lowers
            [of "''soft''" hard_store "''again''" None None "''t1''" "''t2''"]
          enter_maintenance_never_lowers
            [of "''hard''" soft_store "''worse''" None None "''t1''" "''t2''"]
    by (simp add: h s) blast
qed

subsection \<open>Leaving maintenance\<close>

lemma map_of_dict_set: "map_of (dict_set kvs k v) = (map_of kvs)(k \<mapsto> v)"
  by (induction kvs k v rule: dict_set.induct) (auto simp: fun_eq_iff)

lemma deactivate_dict:
  "deactivate (Literal (PyDict kvs)) t x =
     Inr (PyDict (dict_set (dict_set (dict_set kvs (PyStr ''is_active'') (PyBool False))
                              (PyStr ''exited_at'') (PyStr t))
                    (PyStr ''exited_by'') (py_opt x)))"
  by (simp add: deactivate_def and_then_def)

lemma stored_flag_rows:
  "stored_flag st = Some ft \<Longrightarrow> \<exists>r rs. select_flags st ''maintenance_mode'' = r # rs \<and> flag_value r = ft"
  by (auto simp: stored_flag_def split: list.splits)

lemma other_rows_update:
  "filter (\<lambda>r. flag_name r \<noteq> n) (system_flags (update_flags st n v at by)) =
   filter (\<lambda>r. flag_name r \<noteq> n) (system_flags st)"
proof -
  have "filter (\<lambda>r. flag_name r \<noteq> n)
          (map (\<lambda>r. if flag_name r = n
                     then r\<lparr>flag_value := v, updated_at := at, updated_by := by\<rparr>
                     else r) rows) =
        filter (\<lambda>r. flag_name r \<noteq> n) rows" for rows
    by (induction rows) auto
  then show ?thesis by (simp add: update_flags_def)
qed

lemma exit_maintenance_active:
  assumes f: "stored_flag st = Some (Literal (PyDict kvs))"
    and a: "map_of kvs (PyStr ''is_active'') = Some act" "py_truthy act"
  shows "\<exists>st'. exit_maintenance x t1 t2 t3 st =
           Inr (PyDict [(PyStr ''in_maintenance'', PyBool False),
                        (PyStr ''message'', PyStr ''Maintenance mode exited''),
                        (PyStr ''exited_by'', py_opt x),
                        (PyStr ''exited_at'', PyStr t3)], st')
         \<and> stored_flag st' =
             Some (Literal (PyDict (dict_set (dict_set (dict_set kvs (PyStr ''is_active'') (PyBool False))
                                                (PyStr ''exited_at'') (PyStr t1))
                                      (PyStr ''exited_by'') (py_opt x))))
         \<and> notifications st' =
             notifications st @
               (if truthy_opt x
                then [AdminOverride (the x) ''exit_maintenance''
                        (level (get_maintenance_status st)) (reason (get_maintenance_status st))]
                else [])
         \<and> api_keys st' = api_keys st
         \<and> filter (\<lambda>r. flag_name r \<noteq> ''maintenance_mode'') (system_flags st') =
             filter (\<lambda>r. flag_name r \<noteq> ''maintenance_mode'') (system_flags st)"
proof -
  from f obtain r rs where rows: "select_flags st ''maintenance_mode'' = r # rs"
    and v: "flag_value r = Literal (PyDict kvs)"
    using stored_flag_rows by blast
  have inm: "in_maintenance (get_maintenance_status st)"
    using f a by (auto simp: in_maintenance_iff)
  have ne: "select_flags st ''maintenance_mode'' \<noteq> []" using rows by simp
  show ?thesis
    unfolding exit_maintenance_def Let_def
    using inm
    by (simp add: rows v deactivate_dict py_str_def stored_flag_notify
                  stored_flag_update [OF ne] notify_fields update_flags_fields
                  other_rows_update)
       (simp add: notify_def other_rows_update)
qed


lemma truthy_opt_iff: "truthy_opt x \<longleftrightarrow> x \<noteq> None \<and> x \<noteq> Some []"
  by (cases x) (simp_all add: truthy_opt_def)

lemma exit_maintenance_idle:
  "\<not> in_maintenance (get_maintenance_status st) \<Longrightarrow>
   exit_maintenance x t1 t2 t3 st =
     Inr (PyDict [(PyStr ''in_maintenance'', PyBool False),
                  (PyStr ''message'', PyStr ''Not in maintenance mode'')], st)"
  by (simp add: exit_maintenance_def)

lemma soft_store_flag:
  "stored_flag soft_store =
     Some (Literal (PyDict [(PyStr ''level'', PyStr ''soft''),
                            (PyStr ''reason'', PyStr ''keys failed''),
                            (PyStr ''feature'', PyStr ''chat''),
                            (PyStr ''triggered_by'', PyNone),
                            (PyStr ''triggered_at'', PyStr ''t0''),
                            (PyStr ''is_active'', PyBool True)]))"
  by (simp add: stored_flag_def select_flags_def soft_store_def maintenance_data_def)

text \<open>
  Claim C9, as stated, fails: it has the override notification sent if and only if
  \<^verbatim>\<open>exited_by\<close> is given. The source tests \<^verbatim>\<open>if exited_by:\<close>, so an exit by the
  empty string during an episode records the exit and sends no notification.
\<close>

theorem exit_maintenance_empty_admin_counterexample:
  "in_maintenance (get_maintenance_status soft_store)
   \<and> Some [] \<noteq> (None :: string option)
   \<and> exit_notifications (Some []) ''t1'' ''t2'' ''t3'' soft_store = Some []"
proof -
  have inm: "in_maintenance (get_maintenance_status soft_store)"
    by (simp add: in_maintenance_iff soft_store_flag)
  have "\<not> truthy_opt (Some [])" by (simp add: truthy_opt_def)
  with exit_maintenance_active [OF soft_store_flag, of "PyBool True" "Some []" "''t1''" "''t2''" "''t3''"]
  have "exit_notifications (Some []) ''t1'' ''t2'' ''t3'' soft_store = Some []"
    by (auto simp: exit_notifications_def)
  with inm show ?thesis by simp
qed

text \<open>
  Claim C9, amended. With no episode active \<^verbatim>\<open>exit_maintenance\<close> changes nothing and
  returns \<^verbatim>\<open>in_maintenance\<close> false. During an episode it returns \<^verbatim>\<open>in_maintenance\<close>
  false, stores \<^verbatim>\<open>is_active\<close> false with \<^verbatim>\<open>exited_at\<close> and \<^verbatim>\<open>exited_by\<close>, so that the
  next status read reports no episode, and it calls \<^verbatim>\<open>notify_admin_override\<close> once if
  \<^verbatim>\<open>exited_by\<close> is a non-empty string and not at all if it is None or empty.
\<close>

theorem exit_maintenance_effect:
  "(\<not> in_maintenance (get_maintenance_status st) \<longrightarrow>
      exit_maintenance x t1 t2 t3 st =
        Inr (PyDict [(PyStr ''in_maintenance'', PyBool False),
                     (PyStr ''message'', PyStr ''Not in maintenance mode'')], st))
   \<and> (in_maintenance (get_maintenance_status st) \<longrightarrow>
        (\<exists>res st'. exit_maintenance x t1 t2 t3 st = Inr (res, st')
            \<and> py_get res ''in_maintenance'' PyNone = Inr (PyBool False)
            \<and> stored_field st' ''is_active'' = Some (PyBool False)
            \<and> stored_field st' ''exited_at'' = Some (PyStr t1)
            \<and> stored_field st' ''exited_by'' = Some (py_opt x)
            \<and> get_maintenance_status st' = not_in_maintenance
            \<and> notifications st' =
                notifications st @
                  (if x \<noteq> None \<and> x \<noteq> Some []
                   then [AdminOverride (the x) ''exit_maintenance''
                           (level (get_maintenance_status st))
                           (reason (get_maintenance_status st))]
                   else [])))"
proof (intro conjI impI)
  assume "\<not> in_maintenance (get_maintenance_status st)"
  then show "exit_maintenance x t1 t2 t3 st =
        Inr (PyDict [(PyStr ''in_maintenance'', PyBool False),
                     (PyStr ''message'', PyStr ''Not in maintenance mode'')], st)"
    by (rule exit_maintenance_idle)
next
  assume "in_maintenance (get_maintenance_status st)"
  then obtain kvs act where f: "stored_flag st = Some (Literal (PyDict kvs))"
    and a: "map_of kvs (PyStr ''is_active'') = Some act" "py_truthy act"
    by (auto simp: in_maintenance_iff)
  from exit_maintenance_active [OF f a, of x t1 t2 t3]
  obtain st' where e: "exit_maintenance x t1 t2 t3 st =
           Inr (PyDict [(PyStr ''in_maintenance'', PyBool False),
                        (PyStr ''message'', PyStr ''Maintenance mode exited''),
                        (PyStr ''exited_by'', py_opt x),
                        (PyStr ''exited_at'', PyStr t3)], st')"
    and g: "stored_flag st' =
             Some (Literal (PyDict (dict_set (dict_set (dict_set kvs (PyStr ''is_active'') (PyBool False))
                                                (PyStr ''exited_at'') (PyStr t1))
                                      (PyStr ''exited_by'') (py_opt x))))"
    and n: "notifications st' =
             notifications st @
               (if truthy_opt x
                then [AdminOverride (the x) ''exit_maintenance''
                        (level (get_maintenance_status st)) (reason (get_maintenance_status st))]
                else [])"
    by blast
  have fields: "stored_field st' ''is_active'' = Some (PyBool False)"
      "stored_field st' ''exited_at'' = Some (PyStr t1)"
      "stored_field st' ''exited_by'' = Some (py_opt x)"
    by (simp_all add: stored_field_def g map_of_dict_set)
  have out: "get_maintenance_status st' = not_in_maintenance"
    by (simp add: status_cases g parse_flag_cases map_of_dict_set)
  show "\<exists>res st'. exit_maintenance x t1 t2 t3 st = Inr (res, st')
            \<and> py_get res ''in_maintenance'' PyNone = Inr (PyBool False)
            \<and> stored_field st' ''is_active'' = Some (PyBool False)
            \<and> stored_field st' ''exited_at'' = Some (PyStr t1)
            \<and> stored_field st' ''exited_by'' = Some (py_opt x)
            \<and> get_maintenance_status st' = not_in_maintenance
            \<and> notifications st' =
                notifications st @
                  (if x \<noteq> None \<and> x \<noteq> Some []
                   then [AdminOverride (the x) ''exit_maintenance''
                           (level (get_maintenance_status st))
                           (reason (get_maintenance_status st))]
                   else [])"
    using e fields out n by (simp add: truthy_opt_iff)
qed

theorem exit_maintenance_effect_witness:
  "(\<exists>res st'. exit_maintenance (Some ''admin-1'') ''t1'' ''t2'' ''t3'' soft_store = Inr (res, st')
       \<and> get_maintenance_status st' = not_in_maintenance
       \<and> notifications st' = [AdminOverride ''admin-1'' ''exit_maintenance''
                                 (PyStr ''soft'') (PyStr ''keys failed'')])
   \<and> (\<exists>res st'. exit_maintenance None ''t1'' ''t2'' ''t3'' soft_store = Inr (res, st')
       \<and> get_maintenance_status st' = not_in_maintenance
       \<and> notifications st' = [])
   \<and> (\<exists>res. exit_maintenance (Some ''admin-1'') ''t1'' ''t2'' ''t3'' empty_store
               = Inr (res, empty_store))"
proof -
  have s: "get_maintenance_status soft_store =
        \<lparr>in_maintenance = True, level = PyStr ''soft'', reason = PyStr ''keys failed'',
          feature_of = PyStr ''chat'', triggered_by = PyNone, triggered_at = PyStr ''t0''\<rparr>"
    by (simp add: get_maintenance_status_def select_flags_def soft_store_def
                  parse_maintenance_data)
  have e: "get_maintenance_status empty_store = not_in_maintenance"
    by (simp add: get_maintenance_status_def select_flags_def empty_store_def)
  have n: "notifications soft_store = []" by (simp add: soft_store_def)
  show ?thesis
    using exit_maintenance_effect [of soft_store "Some ''admin-1''" "''t1''" "''t2''" "''t3''"]
          exit_maintenance_effect [of soft_store None "''t1''" "''t2''" "''t3''"]
          exit_maintenance_effect [of empty_store "Some ''admin-1''" "''t1''" "''t2''" "''t3''"]
    by (simp add: s e n not_in_maintenance_def) blast
qed

text \<open>
  Claim C10. When \<^verbatim>\<open>exit_maintenance\<close> runs during an episode, the dictionary it stores
  is the stored one with keys \<^verbatim>\<open>is_active\<close>, \<^verbatim>\<open>exited_at\<close> and \<^verbatim>\<open>exited_by\<close> set and
  every other key as it was: \<^verbatim>\<open>level\<close>, \<^verbatim>\<open>reason\<close>, \<^verbatim>\<open>feature\<close>, \<^verbatim>\<open>triggered_by\<close> and
  \<^verbatim>\<open>triggered_at\<close> keep their values. The rows of other flags and the keys are untouched.
\<close>

theorem exit_maintenance_frame:
  assumes "in_maintenance (get_maintenance_status st)"
  shows "\<exists>res st' kvs kvs'.
           exit_maintenance x t1 t2 t3 st = Inr (res, st')
         \<and> stored_flag st = Some (Literal (PyDict kvs))
         \<and> stored_flag st' = Some (Literal (PyDict kvs'))
         \<and> map_of kvs' = (map_of kvs)(PyStr ''is_active'' \<mapsto> PyBool False,
                                        PyStr ''exited_at'' \<mapsto> PyStr t1,
                                        PyStr ''exited_by'' \<mapsto> py_opt x)
         \<and> (\<forall>k \<in> {''level'', ''reason'', ''feature'', ''triggered_by'', ''triggered_at''}.
               stored_field st' k = stored_field st k)
         \<and> api_keys st' = api_keys st
         \<and> filter (\<lambda>r. flag_name r \<noteq> ''maintenance_mode'') (system_flags st') =
             filter (\<lambda>r. flag_name r \<noteq> ''maintenance_mode'') (system_flags st)"
proof -
  from assms obtain kvs act where f: "stored_flag st = Some (Literal (PyDict kvs))"
    and a: "map_of kvs (PyStr ''is_active'') = Some act" "py_truthy act"
    by (auto simp: in_maintenance_iff)
  from exit_maintenance_active [OF f a, of x t1 t2 t3]
  obtain st' res where e: "exit_maintenance x t1 t2 t3 st = Inr (res, st')"
    and g: "stored_flag st' =
             Some (Literal (PyDict (dict_set (dict_set (dict_set kvs (PyStr ''is_active'') (PyBool False))
                                                (PyStr ''exited_at'') (PyStr t1))
                                      (PyStr ''exited_by'') (py_opt x))))"
    and k: "api_keys st' = api_keys st"
    and o: "filter (\<lambda>r. flag_name r \<noteq> ''maintenance_mode'') (system_flags st') =
             filter (\<lambda>r. flag_name r \<noteq> ''maintenance_mode'') (system_flags st)"
    by blast
  have m: "map_of (dict_set (dict_set (dict_set kvs (PyStr ''is_active'') (PyBool False))
                                                (PyStr ''exited_at'') (PyStr t1))
                                      (PyStr ''exited_by'') (py_opt x)) =
           (map_of kvs)(PyStr ''is_active'' \<mapsto> PyBool False,
                        PyStr ''exited_at'' \<mapsto> PyStr t1,
                        PyStr ''exited_by'' \<mapsto> py_opt x)"
    by (simp add: map_of_dict_set)
  have p: "\<forall>k \<in> {''level'', ''reason'', ''feature'', ''triggered_by'', ''triggered_at''}.
               stored_field st' k = stored_field st k"
    by (simp add: stored_field_def f g m)
  from e f g m p k o show ?thesis by blast
qed

theorem exit_maintenance_frame_witness:
  "\<exists>res st'. exit_maintenance (Some ''admin-1'') ''t1'' ''t2'' ''t3'' soft_store = Inr (res, st')
       \<and> stored_field st' ''level'' = Some (PyStr ''soft'')
       \<and> stored_field st' ''reason'' = Some (PyStr ''keys failed'')
       \<and> stored_field st' ''triggered_at'' = Some (PyStr ''t0'')"
proof -
  have inm: "in_maintenance (get_maintenance_status soft_store)"
    by (simp add: in_maintenance_iff soft_store_flag)
  have f: "stored_field soft_store ''level'' = Some (PyStr ''soft'')"
      "stored_field soft_store ''reason'' = Some (PyStr ''keys failed'')"
      "stored_field soft_store ''triggered_at'' = Some (PyStr ''t0'')"
    by (simp_all add: stored_field_def soft_store_flag)
  from exit_maintenance_frame [OF inm, of "Some ''admin-1''" "''t1''" "''t2''" "''t3''"] f
  show ?thesis by auto
qed

section \<open>Properties of the Gemini provider\<close>

lemma and_then_Inr: "and_then m f = Inr y \<longleftrightarrow> (\<exists>x. m = Inr x \<and> f x = Inr y)"
  by (cases m) (simp_all add: and_then_def)

lemma and_then_simps: "and_then (Inr x) f = f x" "and_then (Inl e) f = Inl e"
  by (simp_all add: and_then_def)

lemma failure_simps:
  "\<not> success (failure e)" "error (failure e) = Some e" "content (failure e) = None"
  "tokens_used (failure e) = PyInt 0"
  by (simp_all add: failure_def)

lemma parse_response_success:
  assumes "parse_response p js = Inr r" and "success r"
  shows "\<exists>resp cands cand cont parts part text usage reported tokens.
           js = Inr resp
         \<and> py_get resp ''candidates'' (PyList []) = Inr cands \<and> py_truthy cands
         \<and> py_first cands = Inr cand
         \<and> py_get cand ''content'' (PyDict []) = Inr cont
         \<and> py_get cont ''parts'' (PyList []) = Inr parts \<and> py_truthy parts
         \<and> py_first parts = Inr part
         \<and> py_get part ''text'' (PyStr []) = Inr text
         \<and> py_get resp ''usageMetadata'' (PyDict []) = Inr usage
         \<and> py_get usage ''totalTokenCount'' (PyInt 0) = Inr reported
         \<and> (if py_is_zero reported then estimate_tokens p text else Inr reported) = Inr tokens
         \<and> r = \<lparr>success = True, content = Some text, error = None, tokens_used = tokens\<rparr>"
proof -
  from assms(1) obtain resp where 1: "js = Inr resp"
    and a: "and_then (py_get resp ''candidates'' (PyList [])) (\<lambda>candidates.
     if \<not> py_truthy candidates then Inr (failure NoResponseGenerated)
     else
       and_then (py_first candidates) (\<lambda>candidate.
       and_then (py_get candidate ''content'' (PyDict [])) (\<lambda>cont.
       and_then (py_get cont ''parts'' (PyList [])) (\<lambda>parts.
       if \<not> py_truthy parts then Inr (failure NoContentInResponse)
       else
         and_then (py_first parts) (\<lambda>part.
         and_then (py_get part ''text'' (PyStr [])) (\<lambda>generated_text.
         and_then (py_get resp ''usageMetadata'' (PyDict [])) (\<lambda>usage_metadata.
         and_then (py_get usage_metadata ''totalTokenCount'' (PyInt 0)) (\<lambda>reported.
         and_then (if py_is_zero reported then estimate_tokens p generated_text
                   else Inr reported) (\<lambda>tokens.
         Inr \<lparr>success = True, content = Some generated_text, error = None,
              tokens_used = tokens\<rparr>))))))))) = Inr r"
    unfolding parse_response_def and_then_Inr by blast
  from a obtain cands where 2: "py_get resp ''candidates'' (PyList []) = Inr cands"
    and b: "(if \<not> py_truthy cands then Inr (failure NoResponseGenerated)
     else
       and_then (py_first cands) (\<lambda>candidate.
       and_then (py_get candidate ''content'' (PyDict [])) (\<lambda>cont.
       and_then (py_get cont ''parts'' (PyList [])) (\<lambda>parts.
       if \<not> py_truthy parts then Inr (failure NoContentInResponse)
       else
         and_then (py_first parts) (\<lambda>part.
         and_then (py_get part ''text'' (PyStr [])) (\<lambda>generated_text.
         and_then (py_get resp ''usageMetadata'' (PyDict [])) (\<lambda>usage_metadata.
         and_then (py_get usage_metadata ''totalTokenCount'' (PyInt 0)) (\<lambda>reported.
         and_then (if py_is_zero reported then estimate_tokens p generated_text
                   else Inr reported) (\<lambda>tokens.
         Inr \<lparr>success = True, content = Some generated_text, error = None,
              tokens_used = tokens\<rparr>))))))))) = Inr r"
    unfolding and_then_Inr [of "py_get resp ''candidates'' (PyList [])"] by blast
  have 3: "py_truthy cands"
    using b assms(2) by (cases "py_truthy cands") (auto simp: failure_simps)
  with b obtain cand cont parts where 4: "py_first cands = Inr cand"
    and 5: "py_get cand ''content'' (PyDict []) = Inr cont"
    and 6: "py_get cont ''parts'' (PyList []) = Inr parts"
    and c: "(if \<not> py_truthy parts then Inr (failure NoContentInResponse)
       else
         and_then (py_first parts) (\<lambda>part.
         and_then (py_get part ''text'' (PyStr [])) (\<lambda>generated_text.
         and_then (py_get resp ''usageMetadata'' (PyDict [])) (\<lambda>usage_metadata.
         and_then (py_get usage_metadata ''totalTokenCount'' (PyInt 0)) (\<lambda>reported.
         and_then (if py_is_zero reported then estimate_tokens p generated_text
                   else Inr reported) (\<lambda>tokens.
         Inr \<lparr>success = True, content = Some generated_text, error = None,
              tokens_used = tokens\<rparr>)))))) = Inr r"
    by (simp add: and_then_Inr) blast
  have 7: "py_truthy parts"
    using c assms(2) by (cases "py_truthy parts") (auto simp: failure_simps)
  with c obtain part gen usage reported tokens where
        "py_first parts = Inr part"
        "py_get part ''text'' (PyStr []) = Inr gen"
        "py_get resp ''usageMetadata'' (PyDict []) = Inr usage"
        "py_get usage ''totalTokenCount'' (PyInt 0) = Inr reported"
        "(if py_is_zero reported then estimate_tokens p gen else Inr reported) = Inr tokens"
        "r = \<lparr>success = True, content = Some gen, error = None, tokens_used = tokens\<rparr>"
    by (simp add: and_then_Inr) blast
  with 1 2 3 4 5 6 7 show ?thesis by blast
qed

lemma call_gemini_success:
  assumes "success (call_gemini k p sp out)"
  shows "\<exists>body js. out = Response 200 body js
            \<and> parse_response p js = Inr (call_gemini k p sp out)"
  using assms
  by (cases out) (auto simp: call_gemini_def failure_simps split: if_splits sum.splits)

lemma reported_usage_get:
  assumes "py_get resp ''usageMetadata'' (PyDict []) = Inr usage"
    and "py_get usage ''totalTokenCount'' (PyInt 0) = Inr reported"
  shows "reported = (case reported_usage resp of None \<Rightarrow> PyInt 0 | Some t \<Rightarrow> t)"
proof (cases resp)
  case (PyDict kvs)
  show ?thesis
  proof (cases "map_of kvs (PyStr ''usageMetadata'')")
    case None
    with PyDict assms show ?thesis by (auto simp: reported_usage_def)
  next
    case (Some u)
    with PyDict assms have "usage = u" by simp
    with assms(2) Some PyDict show ?thesis
      by (cases u) (auto simp: reported_usage_def split: option.splits)
  qed
qed (use assms in simp_all)


text \<open>
  Claim C6. A successful response with non-empty content never reports 0 tokens: with
  no reported usage the count is estimated as the length of prompt and content
  together, divided by 4. The source breaks this. Its guard \<^verbatim>\<open>if tokens_used == 0\<close>
  replaces a missing count by \<^verbatim>\<open>len(prompt) // 4 + len(generated_text) // 4\<close>, which
  divides each length before adding: a prompt of two characters answered by two
  characters is a success with non-empty content and 0 tokens, where the estimate of
  the claim is 1.
\<close>

theorem call_gemini_reports_zero_tokens:
  "call_gemini ''key'' ''hi'' None (Response 200 [] (Inr (body_with_text ''ok'')))
     = \<lparr>success = True, content = Some (PyStr ''ok''), error = None, tokens_used = PyInt 0\<rparr>
   \<and> length (''hi'' @ ''ok'') div 4 = 1"
  by (simp add: call_gemini_def parse_response_def body_with_text_def and_then_simps
                estimate_tokens_def)

text \<open>
  Where the count of a successful call comes from: the response had status 200 and a
  body; a reported \<^verbatim>\<open>totalTokenCount\<close> other than 0 is returned as it is, and
  without one the count is computed from the two lengths.
\<close>

lemma call_gemini_tokens:
  assumes "success (call_gemini k p sp out)"
  shows "\<exists>body resp gen.
           out = Response 200 body (Inr resp)
         \<and> content (call_gemini k p sp out) = Some gen
         \<and> (case reported_usage resp of
               Some t \<Rightarrow> \<not> py_is_zero t \<longrightarrow> tokens_used (call_gemini k p sp out) = t
             | None \<Rightarrow> True)
         \<and> ((case reported_usage resp of Some t \<Rightarrow> py_is_zero t | None \<Rightarrow> True) \<longrightarrow>
              (\<exists>n. py_len gen = Inr n
                 \<and> tokens_used (call_gemini k p sp out) = PyInt (int (length p div 4 + n div 4))))"
proof -
  from call_gemini_success [OF assms] obtain body js where
      o: "out = Response 200 body js" and pr: "parse_response p js = Inr (call_gemini k p sp out)"
    by blast
  from parse_response_success [OF pr assms]
  obtain resp gen usage reported tokens where
        j: "js = Inr resp"
    and u: "py_get resp ''usageMetadata'' (PyDict []) = Inr usage"
           "py_get usage ''totalTokenCount'' (PyInt 0) = Inr reported"
    and t: "(if py_is_zero reported then estimate_tokens p gen else Inr reported) = Inr tokens"
    and r: "call_gemini k p sp out =
              \<lparr>success = True, content = Some gen, error = None, tokens_used = tokens\<rparr>"
    by blast
  note rep = reported_usage_get [OF u]
  have c: "content (call_gemini k p sp out) = Some gen"
    and tk: "tokens_used (call_gemini k p sp out) = tokens"
    by (simp_all add: r)
  have a: "case reported_usage resp of
               Some t \<Rightarrow> \<not> py_is_zero t \<longrightarrow> tokens = t
             | None \<Rightarrow> True"
    using t rep by (auto split: option.splits)
  have b: "(\<exists>n. py_len gen = Inr n
                 \<and> tokens = PyInt (int (length p div 4 + n div 4)))"
    if "case reported_usage resp of Some t \<Rightarrow> py_is_zero t | None \<Rightarrow> True"
  proof -
    from that rep have "py_is_zero reported" by (auto split: option.splits)
    with t have "estimate_tokens p gen = Inr tokens" by simp
    then obtain n where n: "py_len gen = Inr n"
      and v: "tokens = PyInt (int (length p div 4 + n div 4))"
      by (auto simp: estimate_tokens_def and_then_Inr)
    with n v show ?thesis by blast
  qed
  from o j c a b show ?thesis unfolding tk by blast
qed

lemma call_gemini_tokens_example:
  "tokens_used (call_gemini ''key'' ''Test prompt'' None
                  (Response 200 [] (Inr (body_with_usage ''This is a test response.'' 25))))
     = PyInt 25
   \<and> tokens_used (call_gemini ''key'' ''Test prompt'' None
                  (Response 200 [] (Inr (body_with_text ''This is a test response.''))))
     = PyInt 8"
proof -
  have s1: "call_gemini ''key'' ''Test prompt'' None
              (Response 200 [] (Inr (body_with_usage ''This is a test response.'' 25)))
            = \<lparr>success = True, content = Some (PyStr ''This is a test response.''),
                error = None, tokens_used = PyInt 25\<rparr>"
    by (simp add: call_gemini_def parse_response_def body_with_usage_def and_then_simps
                  estimate_tokens_def)
  have s2: "success (call_gemini ''key'' ''Test prompt'' None
                  (Response 200 [] (Inr (body_with_text ''This is a test response.''))))"
    by (simp add: call_gemini_def parse_response_def body_with_text_def and_then_simps
                  estimate_tokens_def)
  have c2: "content (call_gemini ''key'' ''Test prompt'' None
                  (Response 200 [] (Inr (body_with_text ''This is a test response.''))))
            = Some (PyStr ''This is a test response.'')"
    by (simp add: call_gemini_def parse_response_def body_with_text_def and_then_simps
                  estimate_tokens_def)
  have r2: "reported_usage (body_with_text ''This is a test response.'') = None"
    by (simp add: reported_usage_def body_with_text_def)
  from call_gemini_tokens [OF s2] obtain body resp gen where
      o: "Response 200 [] (Inr (body_with_text ''This is a test response.''))
            = Response 200 body (Inr resp)"
    and c: "content (call_gemini ''key'' ''Test prompt'' None
                  (Response 200 [] (Inr (body_with_text ''This is a test response.''))))
            = Some gen"
    and e: "(case reported_usage resp of Some t \<Rightarrow> py_is_zero t | None \<Rightarrow> True) \<longrightarrow>
              (\<exists>n. py_len gen = Inr n
                 \<and> tokens_used (call_gemini ''key'' ''Test prompt'' None
                  (Response 200 [] (Inr (body_with_text ''This is a test response.''))))
                    = PyInt (int (length ''Test prompt'' div 4 + n div 4)))"
    by blast
  from o have "resp = body_with_text ''This is a test response.''" by simp
  with e r2 c c2 have "tokens_used (call_gemini ''key'' ''Test prompt'' None
                  (Response 200 [] (Inr (body_with_text ''This is a test response.''))))
     = PyInt 8"
    by auto
  with s1 show ?thesis by simp
qed

lemma call_gemini_shape:
  "success (call_gemini k p sp out) \<or> (\<exists>e. call_gemini k p sp out = failure e)"
proof (cases out)
  case (Response status body js)
  show ?thesis
  proof (cases "parse_response p js")
    case (Inl e)
    with Response show ?thesis by (auto simp: call_gemini_def)
  next
    case (Inr r)
    show ?thesis
    proof (cases "success r")
      case True
      with Inr Response show ?thesis by (auto simp: call_gemini_def failure_simps)
    next
      case False
      have "\<exists>e. r = failure e"
        using Inr False unfolding parse_response_def
        by (auto simp: and_then_Inr split: if_splits)
      with Inr Response show ?thesis by (auto simp: call_gemini_def)
    qed
  qed
qed (auto simp: call_gemini_def)

text \<open>
  Claim C7. A 2xx response with no candidates, no parts or an empty generated text is a
  failure, never a success with empty content. The source breaks this for the empty
  text. It guards missing candidates and missing parts, and the streaming variant
  guards \<^verbatim>\<open>if text:\<close>, but \<^verbatim>\<open>call_gemini\<close> returns the text of the first part
  unchecked: a status 200 response whose first part has the empty text is returned as a
  success with empty content.
\<close>

theorem call_gemini_succeeds_on_empty_text:
  "call_gemini ''key'' ''What is X?'' None (Response 200 [] (Inr (body_with_text [])))
     = \<lparr>success = True, content = Some (PyStr []), error = None, tokens_used = PyInt 2\<rparr>"
  by (simp add: call_gemini_def parse_response_def body_with_text_def and_then_simps
                estimate_tokens_def)

text \<open>
  The two guards that the source has. When the HTTP call answers with a 2xx status and
  the body has no candidates (the key is missing, or its value is empty or null), or the
  content of the first candidate has no parts, the result is a failure with an error
  and no content: \<^verbatim>\<open>No response generated by Gemini\<close> and
  \<^verbatim>\<open>No content in Gemini response\<close> at status 200, the API error at any other status.
  Every result that is not a success is a failure with an error.
\<close>

lemma call_gemini_empty_response_fails:
  assumes "200 \<le> status_code" and "status_code < 300"
    and "py_get resp ''candidates'' (PyList []) = Inr cands"
    and "\<not> py_truthy cands
         \<or> (\<exists>cand cont parts.
               py_first cands = Inr cand
             \<and> py_get cand ''content'' (PyDict []) = Inr cont
             \<and> py_get cont ''parts'' (PyList []) = Inr parts
             \<and> \<not> py_truthy parts)"
  shows "\<not> success (call_gemini k p sp (Response status_code body (Inr resp)))
       \<and> content (call_gemini k p sp (Response status_code body (Inr resp))) = None
       \<and> (\<exists>e. error (call_gemini k p sp (Response status_code body (Inr resp))) = Some e
              \<and> (status_code = 200 \<longrightarrow>
                   e = (if py_truthy cands then NoContentInResponse else NoResponseGenerated)))
       \<and> (\<forall>out. success (call_gemini k p sp out) \<or> (\<exists>e. call_gemini k p sp out = failure e))"
proof -
  have r: "call_gemini k p sp (Response status_code body (Inr resp)) =
             (if status_code \<noteq> 200 then failure (ApiError status_code (error_message body (Inr resp)))
              else if py_truthy cands then failure NoContentInResponse
              else failure NoResponseGenerated)"
  proof (cases "py_truthy cands")
    case False
    with assms(3) show ?thesis
      by (simp add: call_gemini_def parse_response_def and_then_simps)
  next
    case True
    with assms(4) obtain cand cont parts where
        "py_first cands = Inr cand" "py_get cand ''content'' (PyDict []) = Inr cont"
        "py_get cont ''parts'' (PyList []) = Inr parts" "\<not> py_truthy parts"
      by blast
    with True assms(3) show ?thesis
      by (simp add: call_gemini_def parse_response_def and_then_simps)
  qed
  show ?thesis
    unfolding r using call_gemini_shape [of k p sp] by (simp add: failure_simps)
qed

lemma call_gemini_empty_response_fails_example:
  "\<not> success (call_gemini ''key'' ''Test prompt'' None
                (Response 200 [] (Inr (PyDict [(PyStr ''candidates'', PyList [])]))))
   \<and> error (call_gemini ''key'' ''Test prompt'' None
                (Response 200 [] (Inr (PyDict [(PyStr ''candidates'', PyList [])]))))
       = Some NoResponseGenerated
   \<and> error (call_gemini ''key'' ''Test prompt'' None
                (Response 200 []
                   (Inr (PyDict [(PyStr ''candidates'', PyList [PyDict [(PyStr ''content'', PyDict [])]])]))))
       = Some NoContentInResponse"
  using call_gemini_empty_response_fails
          [of 200 "PyDict [(PyStr ''candidates'', PyList [])]" "PyList []"
              "''key''" "''Test prompt''" None "[]"]
        call_gemini_empty_response_fails
          [of 200 "PyDict [(PyStr ''candidates'', PyList [PyDict [(PyStr ''content'', PyDict [])]])]"
              "PyList [PyDict [(PyStr ''content'', PyDict [])]]"
              "''key''" "''Test prompt''" None "[]"]
  by simp

section \<open>Properties of the encryption service\<close>

subsection \<open>The stand-in library\<close>

lemma char_of_byte_inverse: "char_of_byte (byte_of_char c) = c"
  by (simp add: char_of_byte_def byte_of_char_def unat_of_nat)

lemma byte_of_char_inverse: "byte_of_char (char_of_byte b) = b"
proof -
  have "unat b < 256" using unsigned_less [of b, where ?'a = nat] by simp
  then show ?thesis by (simp add: char_of_byte_def byte_of_char_def)
qed

lemma toy_decrypt_encrypt:
  "\<exists>c. toy_encrypt k n p = Inr c \<and> toy_decrypt k n c = Inr p"
  by (simp add: toy_encrypt_def toy_decrypt_def toy_tag_def comp_def)

lemma toy_lib_contract: "lib_contract toy_lib"
  unfolding lib_contract_def
  by (simp add: toy_lib_def comp_def char_of_byte_inverse byte_of_char_inverse
                toy_decrypt_encrypt)

subsection \<open>The UTF-8 codec\<close>

lemma split3: "c div 4096 * 4096 + c div 64 mod 64 * 64 + c mod 64 = (c::nat)"
proof -
  define q where "q = c div 64"
  have 1: "c div 4096 = q div 64"
    unfolding q_def by (simp add: div_mult2_eq [symmetric])
  have 2: "q div 64 * 64 + q mod 64 = q" by simp
  have 3: "q * 64 + c mod 64 = c" by (simp add: q_def)
  have g: "a * 4096 + b * 64 + d = (a * 64 + b) * 64 + d" for a b d :: nat
    by simp
  have "q div 64 * 4096 + q mod 64 * 64 + c mod 64 = (q div 64 * 64 + q mod 64) * 64 + c mod 64"
    by (rule g)
  also have "\<dots> = c" by (simp only: 2 3)
  finally show ?thesis by (simp only: 1 q_def)
qed

lemma split4:
  "c div 262144 * 262144 + c div 4096 mod 64 * 4096 + c div 64 mod 64 * 64 + c mod 64 = (c::nat)"
proof -
  define p where "p = c div 4096"
  have 1: "c div 262144 = p div 64"
    unfolding p_def by (simp add: div_mult2_eq [symmetric])
  have 2: "p div 64 * 64 + p mod 64 = p" by simp
  have g: "a * 262144 + b * 4096 = (a * 64 + b) * 4096" for a b :: nat
    by simp
  have "p div 64 * 262144 + p mod 64 * 4096 = (p div 64 * 64 + p mod 64) * 4096"
    by (rule g)
  also have "\<dots> = p * 4096" by (simp only: 2)
  finally have "c div 262144 * 262144 + c div 4096 mod 64 * 4096 = c div 4096 * 4096"
    by (simp only: 1 p_def)
  then have "c div 262144 * 262144 + c div 4096 mod 64 * 4096 + c div 64 mod 64 * 64 + c mod 64
             = c div 4096 * 4096 + c div 64 mod 64 * 64 + c mod 64"
    by simp
  then show ?thesis by (simp only: split3)
qed

lemma encode_char_Some:
  "encode_char c \<noteq> None \<longleftrightarrow> c < 0x110000 \<and> \<not> is_surrogate c"
  by (auto simp: encode_char_def is_surrogate_def)

lemma encode_char_bytes: "encode_char c = Some bs \<Longrightarrow> \<forall>b \<in> set bs. b < 256"
  by (auto simp: encode_char_def split: if_splits)

lemma decode_encode_char:
  assumes "encode_char c = Some bs"
  shows "utf8_decode_nats (bs @ rest) = map_option (\<lambda>s. c # s) (utf8_decode_nats rest)"
proof -
  consider (a) "c < 0x80" | (b) "0x80 \<le> c" "c < 0x800"
    | (c) "0x800 \<le> c" "c < 0x10000" "\<not> is_surrogate c"
    | (d) "0x10000 \<le> c" "c < 0x110000"
    using assms unfolding encode_char_def by (cases "c < 0x80"; cases "c < 0x800";
      cases "is_surrogate c"; cases "c < 0x10000"; cases "c < 0x110000"; simp)
  then show ?thesis
  proof cases
    case a
    with assms have "bs = [c]" by (simp add: encode_char_def)
    with a show ?thesis by simp
  next
    case b
    with assms have bs: "bs = [0xC0 + c div 64, 0x80 + c mod 64]"
      by (simp add: encode_char_def)
    have "128 div 64 \<le> c div 64" using b(1) by (intro div_le_mono) simp
    then have r1: "2 \<le> c div 64" by simp
    have r2: "c div 64 < 32" using b(2) by (intro less_mult_imp_div_less) simp
    have m: "c mod 64 < 64" by simp
    have v: "c div 64 * 64 + c mod 64 = c" by simp
    show ?thesis
      unfolding bs using r1 r2 m by (simp add: is_continuation_def v)
  next
    case c
    with assms have bs: "bs = [0xE0 + c div 4096, 0x80 + c div 64 mod 64, 0x80 + c mod 64]"
      by (simp add: encode_char_def)
    have r: "c div 4096 < 16" using c(2) by (intro less_mult_imp_div_less) simp
    have m: "c mod 64 < 64" "c div 64 mod 64 < 64" by simp_all
    show ?thesis
      unfolding bs using r m c by (simp add: is_continuation_def split3 Let_def)
  next
    case d
    with assms have bs: "bs = [0xF0 + c div 262144, 0x80 + c div 4096 mod 64,
                               0x80 + c div 64 mod 64, 0x80 + c mod 64]"
      by (simp add: encode_char_def is_surrogate_def)
    have r: "c div 262144 < 5" using d(2) by (intro less_mult_imp_div_less) simp
    have m: "c mod 64 < 64" "c div 64 mod 64 < 64" "c div 4096 mod 64 < 64" by simp_all
    show ?thesis
      unfolding bs using r m d by (simp add: is_continuation_def split4 Let_def)
  qed
qed

lemma decode_encode_nats:
  "utf8_encode_nats s = Some ns \<Longrightarrow> utf8_decode_nats ns = Some s \<and> (\<forall>b \<in> set ns. b < 256)"
proof (induction s arbitrary: ns)
  case Nil
  then show ?case by simp
next
  case (Cons c s)
  from Cons.prems obtain bs r where e: "encode_char c = Some bs"
    and r: "utf8_encode_nats s = Some r" and ns: "ns = bs @ r"
    by (auto split: option.splits)
  from Cons.IH [OF r] have d: "utf8_decode_nats r = Some s" and l: "\<forall>b \<in> set r. b < 256"
    by simp_all
  have "utf8_decode_nats (bs @ r) = Some (c # s)"
    by (simp add: decode_encode_char [OF e] d)
  moreover have "\<forall>b \<in> set (bs @ r). b < 256"
    using encode_char_bytes [OF e] l by auto
  ultimately show ?case by (simp add: ns)
qed

lemma utf8_encode_nats_Some:
  "utf8_encode_nats s \<noteq> None \<longleftrightarrow> (\<forall>c \<in> set s. c < 0x110000 \<and> \<not> is_surrogate c)"
proof (induction s)
  case Nil
  show ?case by simp
next
  case (Cons c s)
  show ?case
  proof (cases "encode_char c")
    case None
    with encode_char_Some [of c] show ?thesis by auto
  next
    case (Some bs)
    with encode_char_Some [of c] Cons.IH show ?thesis by auto
  qed
qed

lemma utf8_round_trip: "utf8_encode s = Inr bs \<Longrightarrow> utf8_decode bs = Inr s"
proof -
  assume a: "utf8_encode s = Inr bs"
  then obtain ns where n: "utf8_encode_nats s = Some ns" and bs: "bs = map of_nat ns"
    by (auto simp: utf8_encode_def split: option.splits)
  from decode_encode_nats [OF n] have d: "utf8_decode_nats ns = Some s"
    and l: "\<forall>b \<in> set ns. b < 256"
    by simp_all
  have "map unat bs = ns"
    unfolding bs using l by (induction ns) (simp_all add: unat_of_nat)
  with d show ?thesis by (simp add: utf8_decode_def)
qed

lemma utf8_encode_succeeds:
  "\<forall>c \<in> set s. c < 0x110000 \<and> \<not> is_surrogate c \<Longrightarrow> \<exists>bs. utf8_encode s = Inr bs"
  using utf8_encode_nats_Some [of s] by (auto simp: utf8_encode_def split: option.splits)

lemma utf8_encode_surrogate:
  "\<exists>c \<in> set s. is_surrogate c \<Longrightarrow> utf8_encode s = Inl UnicodeEncodeError"
  using utf8_encode_nats_Some [of s] by (auto simp: utf8_encode_def split: option.splits)

subsection \<open>Encrypting and decrypting\<close>

lemma new_service_key_length:
  "new_service lib encryption_key env = Inr svc \<Longrightarrow> length (key svc) = 32"
  by (auto simp: new_service_def Let_def and_then_def split: if_splits sum.splits)

lemma contract_b64:
  "lib_contract lib \<Longrightarrow> b64decode lib (b64encode lib bs) = Inr bs"
  by (simp add: lib_contract_def)

lemma contract_b64_empty:
  "lib_contract lib \<Longrightarrow> b64encode lib bs = [] \<Longrightarrow> bs = []"
  by (simp add: lib_contract_def)

lemma contract_aesgcm:
  "lib_contract lib \<Longrightarrow> length k = 32 \<Longrightarrow> length n = 12 \<Longrightarrow>
   \<exists>c. aesgcm_encrypt lib k n p = Inr c \<and> aesgcm_decrypt lib k n c = Inr p"
  by (simp add: lib_contract_def)

lemma b64encode_inj:
  assumes "lib_contract lib" and "b64encode lib a = b64encode lib b"
  shows "a = b"
proof -
  have "Inr a = b64decode lib (b64encode lib a)" by (simp add: contract_b64 [OF assms(1)])
  also have "\<dots> = b64decode lib (b64encode lib b)" by (simp only: assms(2))
  also have "\<dots> = Inr b" by (simp add: contract_b64 [OF assms(1)])
  finally show ?thesis by simp
qed

lemma encrypt_key_result:
  assumes c: "lib_contract lib" and k: "length (key svc) = 32" and n: "length nonce = 12"
    and x: "x \<noteq> []" and v: "\<forall>c \<in> set x. c < 0x110000 \<and> \<not> is_surrogate c"
  shows "\<exists>data ct. utf8_encode x = Inr data \<and> utf8_decode data = Inr x
           \<and> aesgcm_encrypt lib (key svc) nonce data = Inr ct
           \<and> aesgcm_decrypt lib (key svc) nonce ct = Inr data
           \<and> encrypt_key lib svc nonce x = Inr (b64encode lib (nonce @ ct))"
proof -
  from utf8_encode_succeeds [OF v]
  obtain data where d: "utf8_encode x = Inr data" by blast
  then have d': "utf8_decode data = Inr x" by (rule utf8_round_trip)
  from contract_aesgcm [OF c k n, of data]
  obtain ct where e: "aesgcm_encrypt lib (key svc) nonce data = Inr ct"
      "aesgcm_decrypt lib (key svc) nonce ct = Inr data"
    by blast
  from x d e have "encrypt_key lib svc nonce x = Inr (b64encode lib (nonce @ ct))"
    by (simp add: encrypt_key_def and_then_simps)
  with d d' e show ?thesis by blast
qed

lemma encrypt_key_surrogate:
  assumes "x \<noteq> []" and "\<exists>c \<in> set x. is_surrogate c"
  shows "encrypt_key lib svc nonce x = Inl (EncryptFailed UnicodeEncodeError)"
  using assms(1) utf8_encode_surrogate [OF assms(2)]
  by (simp add: encrypt_key_def and_then_simps)

lemma decrypt_key_blob:
  assumes c: "lib_contract lib" and l: "12 \<le> length blob"
  shows "decrypt_key lib svc (b64encode lib blob) =
           (case and_then (aesgcm_decrypt lib (key svc) (take 12 blob) (drop 12 blob))
                   utf8_decode
            of Inl e \<Rightarrow> if e = InvalidTag then Inl AuthenticationFailed else Inl (DecryptFailed e)
             | Inr plaintext \<Rightarrow> Inr plaintext)"
proof -
  have d: "b64decode lib (b64encode lib blob) = Inr blob"
    by (rule contract_b64 [OF c])
  from l have "blob \<noteq> []" by auto
  with contract_b64_empty [OF c, of blob] have "b64encode lib blob \<noteq> []" by blast
  with d l show ?thesis
    by (simp add: decrypt_key_def and_then_simps)
qed

lemma decrypt_repeatedly_same:
  "decrypt_key lib svc c = r \<Longrightarrow> decrypt_repeatedly lib svc c n = replicate n r"
  by (induction n) simp_all

text \<open>
  Claim C4, as stated, fails: not every non-empty plaintext can be encrypted. A plaintext
  of one lone surrogate is a non-empty \<^verbatim>\<open>str\<close> that the UTF-8 codec refuses, so
  \<^verbatim>\<open>encrypt_key\<close> raises the error of a failed encryption before any library of the
  cipher is called, and there is nothing to decrypt.
\<close>

theorem encrypt_key_lone_surrogate_counterexample:
  "[0xD800] \<noteq> ([] :: unicode)
   \<and> encrypt_key toy_lib toy_service (replicate 12 1) [0xD800]
       = Inl (EncryptFailed UnicodeEncodeError)"
  by (simp add: encrypt_key_def utf8_encode_def encode_char_def is_surrogate_def and_then_simps)

text \<open>
  Claim C4, amended. Under the contract of the libraries, for every key of 32 bytes
  and every non-empty plaintext \<open>x\<close> without surrogates: \<^verbatim>\<open>encrypt_key\<close> returns a
  ciphertext that \<^verbatim>\<open>decrypt_key\<close> turns back into \<open>x\<close>; two calls, whose draws of the
  12-byte nonce differ, return different ciphertexts, and both decrypt to \<open>x\<close>; and any
  number of successive decryptions of one ciphertext all return \<open>x\<close>. On a non-empty
  plaintext with a surrogate \<^verbatim>\<open>encrypt_key\<close> raises the error of a failed encryption.
\<close>

theorem encrypt_decrypt_round_trip:
  assumes "lib_contract lib" and "length (key svc) = 32" and "x \<noteq> []"
    and "\<forall>c \<in> set x. c < 0x110000"
    and "length n1 = 12" and "length n2 = 12" and "n1 \<noteq> n2"
  shows "((\<forall>c \<in> set x. \<not> is_surrogate c) \<longrightarrow>
            (\<exists>c1 c2. encrypt_key lib svc n1 x = Inr c1
                   \<and> encrypt_key lib svc n2 x = Inr c2
                   \<and> decrypt_key lib svc c1 = Inr x
                   \<and> decrypt_key lib svc c2 = Inr x
                   \<and> c1 \<noteq> c2
                   \<and> (\<forall>k. decrypt_repeatedly lib svc c1 k = replicate k (Inr x))))
       \<and> ((\<exists>c \<in> set x. is_surrogate c) \<longrightarrow>
            encrypt_key lib svc n1 x = Inl (EncryptFailed UnicodeEncodeError))"
proof (intro conjI impI)
  assume "\<forall>c \<in> set x. \<not> is_surrogate c"
  with assms(4) have v: "\<forall>c \<in> set x. c < 0x110000 \<and> \<not> is_surrogate c" by blast
  from encrypt_key_result [OF assms(1,2,5,3) v] obtain d1 ct1 where
      1: "utf8_decode d1 = Inr x" "aesgcm_decrypt lib (key svc) n1 ct1 = Inr d1"
         "encrypt_key lib svc n1 x = Inr (b64encode lib (n1 @ ct1))"
    by blast
  from encrypt_key_result [OF assms(1,2,6,3) v] obtain d2 ct2 where
      2: "utf8_decode d2 = Inr x" "aesgcm_decrypt lib (key svc) n2 ct2 = Inr d2"
         "encrypt_key lib svc n2 x = Inr (b64encode lib (n2 @ ct2))"
    by blast
  have r1: "decrypt_key lib svc (b64encode lib (n1 @ ct1)) = Inr x"
    using decrypt_key_blob [OF assms(1), of "n1 @ ct1" svc] assms(5) 1
    by (simp add: and_then_simps)
  have r2: "decrypt_key lib svc (b64encode lib (n2 @ ct2)) = Inr x"
    using decrypt_key_blob [OF assms(1), of "n2 @ ct2" svc] assms(6) 2
    by (simp add: and_then_simps)
  have "n1 @ ct1 \<noteq> n2 @ ct2"
    using assms(5,6,7) by simp
  then have ne: "b64encode lib (n1 @ ct1) \<noteq> b64encode lib (n2 @ ct2)"
    using b64encode_inj [OF assms(1)] by blast
  have rep: "\<forall>k. decrypt_repeatedly lib svc (b64encode lib (n1 @ ct1)) k = replicate k (Inr x)"
    using decrypt_repeatedly_same [OF r1] by blast
  from 1 2 r1 r2 ne rep
  show "\<exists>c1 c2. encrypt_key lib svc n1 x = Inr c1
                   \<and> encrypt_key lib svc n2 x = Inr c2
                   \<and> decrypt_key lib svc c1 = Inr x
                   \<and> decrypt_key lib svc c2 = Inr x
                   \<and> c1 \<noteq> c2
                   \<and> (\<forall>k. decrypt_repeatedly lib svc c1 k = replicate k (Inr x))"
    by simp
next
  assume "\<exists>c \<in> set x. is_surrogate c"
  with assms(3) show "encrypt_key lib svc n1 x = Inl (EncryptFailed UnicodeEncodeError)"
    by (rule encrypt_key_surrogate)
qed

theorem encrypt_decrypt_round_trip_witness:
  "\<exists>c1 c2. encrypt_key toy_lib toy_service (replicate 12 1) [107, 0x20AC, 0x1F511] = Inr c1
         \<and> encrypt_key toy_lib toy_service (replicate 12 2) [107, 0x20AC, 0x1F511] = Inr c2
         \<and> decrypt_key toy_lib toy_service c1 = Inr [107, 0x20AC, 0x1F511]
         \<and> decrypt_key toy_lib toy_service c2 = Inr [107, 0x20AC, 0x1F511]
         \<and> c1 \<noteq> c2
         \<and> decrypt_repeatedly toy_lib toy_service c1 3 = replicate 3 (Inr [107, 0x20AC, 0x1F511])"
proof -
  have n: "replicate 12 (1 :: byte) \<noteq> replicate 12 2" by (simp add: replicate_eq_replicate)
  have v: "\<forall>c \<in> set [107, 0x20AC, 0x1F511 :: nat]. c < 0x110000" by simp
  have s: "\<forall>c \<in> set [107, 0x20AC, 0x1F511 :: nat]. \<not> is_surrogate c"
    by (simp add: is_surrogate_def)
  have k: "length (key toy_service) = 32" by (simp add: toy_service_def)
  from encrypt_decrypt_round_trip
         [OF toy_lib_contract k _ v _ _ n] s
  show ?thesis by fastforce
qed

text \<open>
  What \<^verbatim>\<open>decrypt_key\<close> does on each failure, whatever the libraries are: the empty
  text, a text that decodes to fewer than 12 bytes and an \<^verbatim>\<open>InvalidTag\<close> of AES-GCM
  each raise their own error, and a plaintext is returned only when AES-GCM returned one
  for the nonce and the data under the key of the service.
\<close>

lemma decrypt_key_plaintext:
  assumes "decrypt_key lib svc c = Inr p"
  shows "\<exists>d pt. b64decode lib c = Inr d \<and> 12 \<le> length d
           \<and> aesgcm_decrypt lib (key svc) (take 12 d) (drop 12 d) = Inr pt
           \<and> utf8_decode pt = Inr p"
proof -
  from assms have ne: "c \<noteq> []" by (auto simp: decrypt_key_def)
  with assms have "and_then (b64decode lib c) (\<lambda>encrypted_data.
              if length encrypted_data < 12 then Inl CiphertextTooShort
              else
                and_then (aesgcm_decrypt lib (key svc) (take 12 encrypted_data)
                            (drop 12 encrypted_data)) (\<lambda>plaintext_bytes.
                utf8_decode plaintext_bytes)) = Inr p"
    by (simp add: decrypt_key_def split: sum.splits if_splits)
  then obtain d where d: "b64decode lib c = Inr d"
    and r: "(if length d < 12 then Inl CiphertextTooShort
              else
                and_then (aesgcm_decrypt lib (key svc) (take 12 d) (drop 12 d))
                  (\<lambda>plaintext_bytes. utf8_decode plaintext_bytes)) = Inr p"
    unfolding and_then_Inr [of "b64decode lib c"] by blast
  from r have l: "12 \<le> length d" by (cases "length d < 12") simp_all
  with r obtain pt where "aesgcm_decrypt lib (key svc) (take 12 d) (drop 12 d) = Inr pt"
      "utf8_decode pt = Inr p"
    by (auto simp: and_then_Inr)
  with d l show ?thesis by blast
qed

lemma decrypt_key_errors:
  "decrypt_key lib svc [] = Inl EmptyCiphertext
   \<and> (c \<noteq> [] \<and> b64decode lib c = Inr d \<and> length d < 12 \<longrightarrow>
        decrypt_key lib svc c = Inl (DecryptFailed CiphertextTooShort))
   \<and> (c \<noteq> [] \<and> b64decode lib c = Inr d \<and> 12 \<le> length d
        \<and> aesgcm_decrypt lib (key svc) (take 12 d) (drop 12 d) = Inl InvalidTag \<longrightarrow>
        decrypt_key lib svc c = Inl AuthenticationFailed)"
  by (simp add: decrypt_key_def and_then_simps)

section \<open>Properties of the model router\<close>

lemma try_keys_hit:
  "success (adapter (Suc n) k) \<Longrightarrow>
   try_keys adapter n e (k # ks) =
     (\<lparr>success = True, content = content (adapter (Suc n) k), error = None,
       tokens_used = tokens_used (adapter (Suc n) k),
       result_key_id = Some (key_id k), attempts = Suc n\<rparr>, [key_id k])"
  by (simp add: Let_def)

lemma try_keys_miss:
  "\<not> success (adapter (Suc n) k) \<Longrightarrow>
   try_keys adapter n e (k # ks) =
     (fst (try_keys adapter (Suc n) (error (adapter (Suc n) k)) ks),
      key_id k # snd (try_keys adapter (Suc n) (error (adapter (Suc n) k)) ks))"
  by (simp add: Let_def split_beta)

declare try_keys.simps(2) [simp del]

lemma try_keys_called:
  "snd (try_keys adapter n e ks) = map key_id (take (attempts (fst (try_keys adapter n e ks)) - n) ks)
   \<and> n \<le> attempts (fst (try_keys adapter n e ks))
   \<and> attempts (fst (try_keys adapter n e ks)) \<le> n + length ks"
proof (induction ks arbitrary: n e)
  case Nil
  show ?case by simp
next
  case (Cons k ks)
  show ?case
  proof (cases "success (adapter (Suc n) k)")
    case True
    then show ?thesis by (simp add: try_keys_hit)
  next
    case False
    from Cons.IH [of "Suc n" "error (adapter (Suc n) k)"] False
    show ?thesis
      by (auto simp: try_keys_miss Suc_diff_le take_Cons')
  qed
qed

lemma try_keys_success:
  assumes "success (fst (try_keys adapter n e ks))"
  shows "\<exists>i < length ks.
           attempts (fst (try_keys adapter n e ks)) = n + Suc i
         \<and> result_key_id (fst (try_keys adapter n e ks)) = Some (key_id (ks ! i))
         \<and> content (fst (try_keys adapter n e ks)) = content (adapter (n + Suc i) (ks ! i))
         \<and> tokens_used (fst (try_keys adapter n e ks)) = tokens_used (adapter (n + Suc i) (ks ! i))
         \<and> success (adapter (n + Suc i) (ks ! i))
         \<and> (\<forall>j < i. \<not> success (adapter (n + Suc j) (ks ! j)))"
  using assms
proof (induction ks arbitrary: n e)
  case Nil
  then show ?case by simp
next
  case (Cons k ks)
  show ?case
  proof (cases "success (adapter (Suc n) k)")
    case True
    then have "attempts (fst (try_keys adapter n e (k # ks))) = n + Suc 0
         \<and> result_key_id (fst (try_keys adapter n e (k # ks))) = Some (key_id ((k # ks) ! 0))
         \<and> content (fst (try_keys adapter n e (k # ks))) = content (adapter (n + Suc 0) ((k # ks) ! 0))
         \<and> tokens_used (fst (try_keys adapter n e (k # ks))) = tokens_used (adapter (n + Suc 0) ((k # ks) ! 0))
         \<and> success (adapter (n + Suc 0) ((k # ks) ! 0))
         \<and> (\<forall>j < 0. \<not> success (adapter (n + Suc j) ((k # ks) ! j)))"
      by (simp add: try_keys_hit)
    then show ?thesis by (intro exI [of _ 0]) simp
  next
    case False
    then have eq: "fst (try_keys adapter n e (k # ks)) =
                   fst (try_keys adapter (Suc n) (error (adapter (Suc n) k)) ks)"
      by (simp add: try_keys_miss)
    with Cons.prems have "success (fst (try_keys adapter (Suc n) (error (adapter (Suc n) k)) ks))"
      by simp
    from Cons.IH [OF this] obtain i where i: "i < length ks"
      and a: "attempts (fst (try_keys adapter (Suc n) (error (adapter (Suc n) k)) ks)) = Suc n + Suc i"
        "result_key_id (fst (try_keys adapter (Suc n) (error (adapter (Suc n) k)) ks)) = Some (key_id (ks ! i))"
        "content (fst (try_keys adapter (Suc n) (error (adapter (Suc n) k)) ks)) = content (adapter (Suc n + Suc i) (ks ! i))"
        "tokens_used (fst (try_keys adapter (Suc n) (error (adapter (Suc n) k)) ks)) = tokens_used (adapter (Suc n + Suc i) (ks ! i))"
        "success (adapter (Suc n + Suc i) (ks ! i))"
      and b: "\<forall>j < i. \<not> success (adapter (Suc n + Suc j) (ks ! j))"
      by blast
    have c: "\<forall>j < Suc i. \<not> success (adapter (n + Suc j) ((k # ks) ! j))"
    proof (intro allI impI)
      fix j assume "j < Suc i"
      then show "\<not> success (adapter (n + Suc j) ((k # ks) ! j))"
        using False b by (cases j) simp_all
    qed
    show ?thesis
      unfolding eq
      using i a c by (intro exI [of _ "Suc i"]) simp
  qed
qed

lemma try_keys_failure:
  assumes "\<not> success (fst (try_keys adapter n e ks))"
  shows "attempts (fst (try_keys adapter n e ks)) = n + length ks
       \<and> (\<forall>i < length ks. \<not> success (adapter (n + Suc i) (ks ! i)))"
  using assms
proof (induction ks arbitrary: n e)
  case Nil
  then show ?case by simp
next
  case (Cons k ks)
  show ?case
  proof (cases "success (adapter (Suc n) k)")
    case True
    with Cons.prems show ?thesis by (simp add: try_keys_hit)
  next
    case False
    then have eq: "fst (try_keys adapter n e (k # ks)) =
                   fst (try_keys adapter (Suc n) (error (adapter (Suc n) k)) ks)"
      by (simp add: try_keys_miss)
    with Cons.prems have "\<not> success (fst (try_keys adapter (Suc n) (error (adapter (Suc n) k)) ks))"
      by simp
    from Cons.IH [OF this]
    have a: "attempts (fst (try_keys adapter (Suc n) (error (adapter (Suc n) k)) ks)) = Suc n + length ks"
      and b: "\<forall>i < length ks. \<not> success (adapter (Suc n + Suc i) (ks ! i))"
      by simp_all
    have "\<forall>i < length (k # ks). \<not> success (adapter (n + Suc i) ((k # ks) ! i))"
    proof (intro allI impI)
      fix i assume "i < length (k # ks)"
      then show "\<not> success (adapter (n + Suc i) ((k # ks) ! i))"
        using False b by (cases i) simp_all
    qed
    with a show ?thesis unfolding eq by simp
  qed
qed

lemma keys_descending:
  "sorted (map (\<lambda>k. - priority k) (get_all_active_keys st prov feat))"
  by (simp add: get_all_active_keys_def)

lemma set_active_keys:
  "set (get_all_active_keys st prov feat) =
     {k \<in> set (api_keys st). provider k = prov \<and> feature k = feat \<and> status k = ''active''}"
  by (auto simp: get_all_active_keys_def)


text \<open>
  Claim C1, on the router modelled from the specification. The keys are tried in
  descending priority: the adapter is called with the first \<^verbatim>\<open>attempts\<close> keys of
  the active keys in that order and with no other. The call succeeds if and only if one
  of the first min(number of active keys, \<^verbatim>\<open>max_retries\<close>) adapter calls succeeds; then
  the result is that of the first such call, with its key and its number as the count
  of attempts, and no later key is called. When all of them fail the result is a failure
  with attempts = min(number of active keys, \<^verbatim>\<open>max_retries\<close>).
\<close>

theorem execute_with_fallback_first_success:
  fixes adapter :: "nat \<Rightarrow> api_key \<Rightarrow> provider_result" and st :: store
    and prov feat :: string and max_retries :: nat
  defines "keys \<equiv> get_all_active_keys st prov feat"
  defines "m \<equiv> min (length keys) max_retries"
  defines "res \<equiv> fst (execute_with_fallback adapter st prov feat max_retries)"
  defines "called \<equiv> snd (execute_with_fallback adapter st prov feat max_retries)"
  shows "(\<forall>i j. i < j \<and> j < length keys \<longrightarrow> priority (keys ! j) \<le> priority (keys ! i))
       \<and> attempts res \<le> m
       \<and> called = map key_id (take (attempts res) keys)
       \<and> (success res \<longleftrightarrow> (\<exists>i < m. success (adapter (Suc i) (keys ! i))))
       \<and> (success res \<longrightarrow>
            (\<exists>i < m. attempts res = Suc i
                    \<and> result_key_id res = Some (key_id (keys ! i))
                    \<and> content res = content (adapter (Suc i) (keys ! i))
                    \<and> tokens_used res = tokens_used (adapter (Suc i) (keys ! i))
                    \<and> success (adapter (Suc i) (keys ! i))
                    \<and> (\<forall>j < i. \<not> success (adapter (Suc j) (keys ! j)))))
       \<and> ((\<forall>i < m. \<not> success (adapter (Suc i) (keys ! i))) \<longrightarrow>
            \<not> success res \<and> attempts res = m)"
proof -
  define ks where "ks = take max_retries keys"
  have len: "length ks = m" by (simp add: ks_def m_def)
  have nth: "ks ! i = keys ! i" if "i < m" for i
    using that by (simp add: ks_def m_def)
  have r: "res = fst (try_keys adapter 0 None ks)" "called = snd (try_keys adapter 0 None ks)"
    by (simp_all add: res_def called_def execute_with_fallback_def ks_def keys_def)
  have order: "\<forall>i j. i < j \<and> j < length keys \<longrightarrow> priority (keys ! j) \<le> priority (keys ! i)"
  proof (intro allI impI)
    fix i j assume a: "i < j \<and> j < length keys"
    have "sorted (map (\<lambda>k. - priority k) keys)"
      unfolding keys_def by (rule keys_descending)
    then have "map (\<lambda>k. - priority k) keys ! i \<le> map (\<lambda>k. - priority k) keys ! j"
      using a by (intro sorted_nth_mono) simp_all
    with a show "priority (keys ! j) \<le> priority (keys ! i)" by simp
  qed
  from try_keys_called [of adapter 0 None ks]
  have c: "called = map key_id (take (attempts res) ks)" and b: "attempts res \<le> m"
    by (simp_all add: r len)
  from b have c': "called = map key_id (take (attempts res) keys)"
    unfolding c ks_def m_def by (simp add: min_def split: if_splits)
  have s: "\<exists>i < m. attempts res = Suc i
                    \<and> result_key_id res = Some (key_id (keys ! i))
                    \<and> content res = content (adapter (Suc i) (keys ! i))
                    \<and> tokens_used res = tokens_used (adapter (Suc i) (keys ! i))
                    \<and> success (adapter (Suc i) (keys ! i))
                    \<and> (\<forall>j < i. \<not> success (adapter (Suc j) (keys ! j)))"
    if "success res"
  proof -
    from that have "success (fst (try_keys adapter 0 None ks))" by (simp add: r)
    from try_keys_success [OF this] obtain i where i: "i < m"
      and p: "attempts res = Suc i" "result_key_id res = Some (key_id (ks ! i))"
        "content res = content (adapter (Suc i) (ks ! i))"
        "tokens_used res = tokens_used (adapter (Suc i) (ks ! i))"
        "success (adapter (Suc i) (ks ! i))"
      and q: "\<forall>j < i. \<not> success (adapter (Suc j) (ks ! j))"
      unfolding r len by auto
    have "\<forall>j < i. \<not> success (adapter (Suc j) (keys ! j))"
      using q i by (simp add: nth)
    with i p show ?thesis by (auto simp: nth)
  qed
  have f: "attempts res = m \<and> (\<forall>i < m. \<not> success (adapter (Suc i) (keys ! i)))"
    if "\<not> success res"
  proof -
    from that have "\<not> success (fst (try_keys adapter 0 None ks))" by (simp add: r)
    from try_keys_failure [OF this] show ?thesis
      unfolding r [symmetric] len by (simp add: nth)
  qed
  have iff: "success res \<longleftrightarrow> (\<exists>i < m. success (adapter (Suc i) (keys ! i)))"
    using s f by blast
  from order b c' iff s f show ?thesis by blast
qed

lemma example_active_keys:
  "get_all_active_keys empty_store ''gemini'' ''chat'' =
     [\<lparr>key_id = ''k3'', provider = ''gemini'', feature = ''chat'', key_value = ''z'',
       priority = 50, status = ''active'', failure_count = 1\<rparr>,
      \<lparr>key_id = ''k1'', provider = ''gemini'', feature = ''chat'', key_value = ''x'',
       priority = 10, status = ''active'', failure_count = 0\<rparr>]"
  by (simp add: get_all_active_keys_def empty_store_def example_keys_def)

theorem execute_with_fallback_first_success_witness:
  "success (fst (execute_with_fallback flaky_adapter empty_store ''gemini'' ''chat'' 3))
   \<and> attempts (fst (execute_with_fallback flaky_adapter empty_store ''gemini'' ''chat'' 3)) = 2
   \<and> result_key_id (fst (execute_with_fallback flaky_adapter empty_store ''gemini'' ''chat'' 3))
       = Some ''k1''
   \<and> snd (execute_with_fallback flaky_adapter empty_store ''gemini'' ''chat'' 3) = [''k3'', ''k1'']
   \<and> \<not> success (fst (execute_with_fallback failing_adapter empty_store ''gemini'' ''chat'' 3))
   \<and> attempts (fst (execute_with_fallback failing_adapter empty_store ''gemini'' ''chat'' 3)) = 2"
proof -
  let ?r = "fst (execute_with_fallback flaky_adapter empty_store ''gemini'' ''chat'' 3)"
  note t = execute_with_fallback_first_success
             [where adapter = flaky_adapter and st = empty_store and prov = "''gemini''"
                and feat = "''chat''" and max_retries = 3, unfolded example_active_keys]
  have "success (flaky_adapter (Suc 1) ([\<lparr>key_id = ''k3'', provider = ''gemini'', feature = ''chat'', key_value = ''z'',
       priority = 50, status = ''active'', failure_count = 1\<rparr>,
      \<lparr>key_id = ''k1'', provider = ''gemini'', feature = ''chat'', key_value = ''x'',
       priority = 10, status = ''active'', failure_count = 0\<rparr>] ! 1))"
    by (simp add: flaky_adapter_def)
  with t have s: "success ?r" by auto
  with t obtain i where i: "i < 2" and a: "attempts ?r = Suc i"
    and k: "result_key_id ?r = Some (key_id ([\<lparr>key_id = ''k3'', provider = ''gemini'', feature = ''chat'', key_value = ''z'',
       priority = 50, status = ''active'', failure_count = 1\<rparr>,
      \<lparr>key_id = ''k1'', provider = ''gemini'', feature = ''chat'', key_value = ''x'',
       priority = 10, status = ''active'', failure_count = 0\<rparr>] ! i))"
    and h: "success (flaky_adapter (Suc i) ([\<lparr>key_id = ''k3'', provider = ''gemini'', feature = ''chat'', key_value = ''z'',
       priority = 50, status = ''active'', failure_count = 1\<rparr>,
      \<lparr>key_id = ''k1'', provider = ''gemini'', feature = ''chat'', key_value = ''x'',
       priority = 10, status = ''active'', failure_count = 0\<rparr>] ! i))"
    by auto
  have "i = 1"
  proof (rule ccontr)
    assume "i \<noteq> 1"
    with i have "i = 0" by simp
    with h show False by (simp add: flaky_adapter_def failure_simps)
  qed
  with a k have ak: "attempts ?r = 2" "result_key_id ?r = Some ''k1''" by simp_all
  from t ak(1) have c: "snd (execute_with_fallback flaky_adapter empty_store ''gemini'' ''chat'' 3)
                          = [''k3'', ''k1'']"
    by simp
  note u = execute_with_fallback_first_success
             [where adapter = failing_adapter and st = empty_store and prov = "''gemini''"
                and feat = "''chat''" and max_retries = 3, unfolded example_active_keys]
  have "\<not> success (fst (execute_with_fallback failing_adapter empty_store ''gemini'' ''chat'' 3))
      \<and> attempts (fst (execute_with_fallback failing_adapter empty_store ''gemini'' ''chat'' 3)) = 2"
    using u by (simp add: failing_adapter_def failure_simps)
  with s ak c show ?thesis by simp
qed

end
